theory Spec2Isabelle
  imports Main "HOL-Library.Word" "HOL-Library.AList"
begin

section \<open>The access-filtered schema cache of pkg/schema/factory.go\<close>

text \<open>
  A shallow embedding of \<^verbatim>\<open>pkg/schema/factory.go\<close>: the package initialiser that reads
  the cache timeout, the three cache indexes kept by \<^verbatim>\<open>Collection.Schemas\<close>, the filter
  \<^verbatim>\<open>Collection.schemasForSubject\<close> and the template pass \<^verbatim>\<open>Collection.applyTemplates\<close>.
  Go pointers to shared schemas are modelled by passing the pointed-to values through
  every function that writes to them and returning them updated.
\<close>

subsection \<open>Configuration: \<^verbatim>\<open>CacheTimeout\<close> and \<^verbatim>\<open>init\<close> (lines 18-30)\<close>

text \<open>
  \<^verbatim>\<open>time.Duration\<close> is a signed 64-bit count of nanoseconds; it is a \<open>64 word\<close> here, read
  with \<open>sint\<close>, so that \<^verbatim>\<open>CacheTimeout*time.Hour\<close> wraps as the Go product does.
\<close>

type_synonym Duration = "64 word"

definition time_Hour :: Duration where
  "time_Hour = 3600000000000"

definition default_CacheTimeout :: Duration where
  "default_CacheTimeout = 3 * 30 * 24"

datatype NumError = ErrSyntax | ErrRange

text \<open>
  \<^verbatim>\<open>strconv.Atoi\<close> of the Go standard library (base 10, \<^verbatim>\<open>int\<close> of 64 bits): an optional
  sign, then at least one decimal digit and nothing else; a value outside the 64-bit range
  is a range error. \<open>digit\<close> is the byte test \<^verbatim>\<open>ch -= '0'; ch > 9\<close>.
\<close>

definition digit :: "char \<Rightarrow> nat option" where
  "digit ch = (let b = of_char ch :: nat in if 48 \<le> b \<and> b \<le> 57 then Some (b - 48) else None)"

fun digits :: "string \<Rightarrow> int \<Rightarrow> int option" where
  "digits [] n = Some n"
| "digits (ch # s) n = (case digit ch of None \<Rightarrow> None | Some d \<Rightarrow> digits s (n * 10 + int d))"

definition Atoi :: "string \<Rightarrow> NumError + int" where
  "Atoi s0 =
     (let neg = (s0 \<noteq> [] \<and> hd s0 = CHR ''-'');
          s = (if s0 \<noteq> [] \<and> (hd s0 = CHR ''-'' \<or> hd s0 = CHR ''+'') then tl s0 else s0)
      in if s = [] then Inl ErrSyntax
         else case digits s 0 of
                None \<Rightarrow> Inl ErrSyntax
              | Some n \<Rightarrow>
                  (let v = (if neg then - n else n)
                   in if - (2 ^ 63) \<le> v \<and> v < 2 ^ 63 then Inr v else Inl ErrRange))"

text \<open>
  The package state after \<^verbatim>\<open>init\<close>: the global \<^verbatim>\<open>CacheTimeout\<close> and the messages handed to
  \<^verbatim>\<open>logrus.Errorf\<close>. The argument is what \<^verbatim>\<open>os.Getenv("CATTLE_CACHE_TIMEOUT")\<close> returned (the
  empty string when the variable is unset).
\<close>

record pkg_state =
  CacheTimeout :: Duration
  error_log :: "NumError list"

definition init :: "string \<Rightarrow> pkg_state" where
  "init cacheTimeout =
     (let st = \<lparr>CacheTimeout = default_CacheTimeout, error_log = []\<rparr>
      in if cacheTimeout \<noteq> '''' then
           (case Atoi cacheTimeout of
              Inl err \<Rightarrow> st\<lparr>error_log := error_log st @ [err]\<rparr>
            | Inr num \<Rightarrow> st\<lparr>CacheTimeout := word_of_int num\<rparr>)
         else st)"

text \<open>The time-to-live handed to the caches: \<^verbatim>\<open>CacheTimeout*time.Hour\<close> (lines 78-81).\<close>

definition cache_ttl :: "Duration \<Rightarrow> Duration" where
  "cache_ttl ct = ct * time_Hour"

subsection \<open>Access decisions (package \<^verbatim>\<open>accesscontrol\<close>)\<close>

text \<open>
  Modelled from the spec: the package \<^verbatim>\<open>accesscontrol\<close> is not part of the listed source.
  A grant is a namespace scope and a resource name; \<open>All\<close> is the cluster-wide marker. An
  \<^verbatim>\<open>AccessSet\<close> has a stable identity, a query from a verb and a group/resource pair to a
  list of grants, and the list of visible namespaces. \<^verbatim>\<open>AccessListByVerb\<close> is a Go map
  from verbs to grant lists; it is an association list whose keys are kept unique by
  \<open>AList.update\<close> and which is read with \<open>map_of\<close>.
\<close>

record Access =
  Namespace :: string
  ResourceName :: string

type_synonym AccessList = "Access list"

type_synonym AccessListByVerb = "(string \<times> AccessList) list"

definition All :: string where
  "All = ''*''"

record GroupResource =
  Group :: string
  Resource :: string

record AccessSet =
  ID :: string
  AccessListFor :: "string \<Rightarrow> GroupResource \<Rightarrow> AccessList"
  Namespaces :: "string list"

text \<open>
  Modelled from the spec: \<^verbatim>\<open>AccessListByVerb.AnyVerb\<close> is not part of the listed source. The
  table of section 4.2 reads it as "any grant for" one of the verbs given.
\<close>

definition AnyVerb :: "AccessListByVerb \<Rightarrow> string list \<Rightarrow> bool" where
  "AnyVerb a verbs =
     list_ex (\<lambda>v. case map_of a v of None \<Rightarrow> False | Some l \<Rightarrow> length l > 0) verbs"

subsection \<open>Schemas and catalogs (package \<^verbatim>\<open>types\<close>, package \<^verbatim>\<open>attributes\<close>)\<close>

text \<open>
  A formatter and a store are opaque capabilities; \<^verbatim>\<open>types.FormatterChain\<close> builds a
  formatter from two.
\<close>

datatype Formatter = FormatterHandle string | FormatterChain Formatter Formatter

datatype Store = StoreHandle string

text \<open>
  \<^verbatim>\<open>types.APISchema\<close>, with the fields the source reads or writes. \<open>SchemaID\<close> is the Go
  field \<^verbatim>\<open>ID\<close>. The entries of the \<^verbatim>\<open>Attributes\<close> map that package \<^verbatim>\<open>attributes\<close>
  reads are the fields \<open>attr_...\<close>; a \<^verbatim>\<open>nil\<close> interface value is \<open>None\<close>.
\<close>

record APISchema =
  SchemaID :: string
  ResourceMethods :: "string list"
  CollectionMethods :: "string list"
  Formatter :: "Formatter option"
  Store :: "Store option"
  attr_group :: string
  attr_kind :: string
  attr_resource :: string
  attr_verbs :: "string list"
  attr_namespaced :: bool
  attr_disallowMethods :: "(string \<times> bool) list"
  attr_access :: "AccessListByVerb option"

text \<open>
  Modelled from the spec: the accessors of package \<^verbatim>\<open>attributes\<close> are not part of the
  listed source. Section 6 lists what a base schema carries: group, resource,
  namespace-scoped flag, supported verbs, block-list of disallowed operations.
\<close>

definition attributes_GR :: "APISchema \<Rightarrow> GroupResource" where
  "attributes_GR s = \<lparr>Group = attr_group s, Resource = attr_resource s\<rparr>"

definition attributes_Group :: "APISchema \<Rightarrow> string" where
  "attributes_Group s = attr_group s"

definition attributes_Kind :: "APISchema \<Rightarrow> string" where
  "attributes_Kind s = attr_kind s"

definition attributes_Verbs :: "APISchema \<Rightarrow> string list" where
  "attributes_Verbs s = attr_verbs s"

definition attributes_Namespaced :: "APISchema \<Rightarrow> bool" where
  "attributes_Namespaced s = attr_namespaced s"

definition attributes_DisallowMethods :: "APISchema \<Rightarrow> string \<Rightarrow> bool" where
  "attributes_DisallowMethods s method =
     (case map_of (attr_disallowMethods s) method of None \<Rightarrow> False | Some b \<Rightarrow> b)"

definition attributes_SetAccess :: "APISchema \<Rightarrow> AccessListByVerb \<Rightarrow> APISchema" where
  "attributes_SetAccess s access = s\<lparr>attr_access := Some access\<rparr>"

text \<open>
  \<^verbatim>\<open>DeepCopy\<close> returns a fresh schema with the same contents. Schemas are values here, so
  the copy is the schema itself; what matters is which writes happen to the shared schema
  before the copy is taken, and those are returned by \<open>filterSchema\<close> below.
\<close>

definition DeepCopy :: "APISchema \<Rightarrow> APISchema" where
  "DeepCopy s = s"

datatype error = DuplicateSchema string | NilDereference

text \<open>
  \<^verbatim>\<open>types.APISchemas\<close>: the schemas by identity, in the order they were added, and the
  entry \<^verbatim>\<open>"accessSet"\<close> of its \<^verbatim>\<open>Attributes\<close>.

  Modelled from the spec: \<^verbatim>\<open>EmptyAPISchemas\<close>, \<^verbatim>\<open>AddSchema\<close> and \<^verbatim>\<open>AddSchemas\<close> are not part
  of the listed source. Section 4.2: registering a schema into the result catalog fails
  on a duplicate identity collision; \<^verbatim>\<open>AddSchemas\<close> registers every schema of a catalog
  and stops at the first failure.
\<close>

record APISchemas =
  SchemasByID :: "(string \<times> APISchema) list"
  accessSet :: "AccessSet option"

definition EmptyAPISchemas :: APISchemas where
  "EmptyAPISchemas = \<lparr>SchemasByID = [], accessSet = None\<rparr>"

definition AddSchema :: "APISchema \<Rightarrow> APISchemas \<Rightarrow> error + APISchemas" where
  "AddSchema schema a =
     (if SchemaID schema \<in> set (map fst (SchemasByID a))
      then Inl (DuplicateSchema (SchemaID schema))
      else Inr (a\<lparr>SchemasByID := SchemasByID a @ [(SchemaID schema, schema)]\<rparr>))"

fun AddSchemas_list :: "(string \<times> APISchema) list \<Rightarrow> APISchemas \<Rightarrow> error + APISchemas" where
  "AddSchemas_list [] a = Inr a"
| "AddSchemas_list (kv # rest) a =
     (case AddSchema (snd kv) a of
        Inl err \<Rightarrow> Inl err
      | Inr a' \<Rightarrow> AddSchemas_list rest a')"

definition AddSchemas :: "APISchemas \<Rightarrow> APISchemas \<Rightarrow> error + APISchemas" where
  "AddSchemas src a = AddSchemas_list (SchemasByID src) a"

text \<open>\<^verbatim>\<open>newSchemas\<close> (lines 32-39); the argument is the global \<^verbatim>\<open>builtin.Schemas\<close>.\<close>

definition newSchemas :: "APISchemas \<Rightarrow> error + APISchemas" where
  "newSchemas builtin_Schemas =
     (case AddSchemas builtin_Schemas EmptyAPISchemas of
        Inl err \<Rightarrow> Inl err
      | Inr apiSchemas \<Rightarrow> Inr apiSchemas)"

subsection \<open>Templates\<close>

text \<open>
  The fields of \<^verbatim>\<open>Template\<close> that \<^verbatim>\<open>applyTemplates\<close> reads: \<^verbatim>\<open>Formatter\<close>, \<^verbatim>\<open>Store\<close>,
  \<^verbatim>\<open>StoreFactory\<close> and \<^verbatim>\<open>Customize\<close>. The hook mutates the schema it is given; here it
  returns the schema updated.
\<close>

record Template =
  TemplateFormatter :: "Formatter option"
  TemplateStore :: "Store option"
  StoreFactory :: "(Store option \<Rightarrow> Store option) option"
  Customize :: "(APISchema \<Rightarrow> APISchema) option"

subsection \<open>The collection and its three indexes\<close>

text \<open>
  An instant is a count of nanoseconds. The clock is read five times in one call of
  \<^verbatim>\<open>Schemas\<close>, each time possibly later than the last: inside \<^verbatim>\<open>c.userCache.Get\<close> (line 65),
  inside \<^verbatim>\<open>c.cache.Get\<close> (line 50), inside \<^verbatim>\<open>c.cache.Add\<close> (line 78), inside
  \<^verbatim>\<open>c.userCache.Add\<close> (line 79) and by \<^verbatim>\<open>time.Now()\<close> (line 81). A \<open>Clock\<close> holds the five
  readings of one call.

  Modelled from the spec: the type of \<^verbatim>\<open>c.cache\<close> and \<^verbatim>\<open>c.userCache\<close> is declared outside
  the listed source. Section 3 and 4.1: a record has a fixed time-to-live from its
  creation, is not refreshed on read, and is dropped lazily on the next access after its
  expiry. \<open>cache_Add\<close> does not evict: the eviction of a record by the cache itself is
  a step of its own in the reachable states below.
\<close>

type_synonym Time = int

record Clock =
  atUserGet :: Time
  atGet :: Time
  atAdd :: Time
  atUserAdd :: Time
  atNow :: Time

definition ordered :: "Clock \<Rightarrow> bool" where
  "ordered clk =
     (atUserGet clk \<le> atGet clk \<and> atGet clk \<le> atAdd clk \<and> atAdd clk \<le> atUserAdd clk
      \<and> atUserAdd clk \<le> atNow clk)"

type_synonym 'v LRUExpireCache = "string \<rightharpoonup> ('v \<times> Time)"

definition cache_Get :: "Time \<Rightarrow> string \<Rightarrow> 'v LRUExpireCache \<Rightarrow> 'v LRUExpireCache \<times> 'v option" where
  "cache_Get now key c =
     (case c key of
        None \<Rightarrow> (c, None)
      | Some e \<Rightarrow> if now > snd e then (c(key := None), None) else (c, Some (fst e)))"

definition cache_Add :: "Time \<Rightarrow> string \<Rightarrow> 'v \<Rightarrow> Duration \<Rightarrow> 'v LRUExpireCache \<Rightarrow> 'v LRUExpireCache" where
  "cache_Add now key v ttl c = c(key \<mapsto> (v, now + sint ttl))"

definition cache_Remove :: "string \<Rightarrow> 'v LRUExpireCache \<Rightarrow> 'v LRUExpireCache" where
  "cache_Remove key c = c(key := None)"

record UserTimeoutCacheValue =
  Timeout :: Time
  UserName :: string

text \<open>\<^verbatim>\<open>user.Info\<close>: only \<^verbatim>\<open>GetName\<close> is read.\<close>

record user_Info =
  GetName :: string

text \<open>
  The access-decision engine \<^verbatim>\<open>c.as\<close>: \<^verbatim>\<open>AccessFor\<close>, and the identities for which
  \<^verbatim>\<open>PurgeUserData\<close> has been called, in order.
\<close>

record AccessSetLookup =
  AccessFor :: "user_Info \<Rightarrow> AccessSet"
  purged :: "string list"

definition PurgeUserData :: "string \<Rightarrow> AccessSetLookup \<Rightarrow> AccessSetLookup" where
  "PurgeUserData id' l = l\<lparr>purged := purged l @ [id']\<rparr>"

text \<open>
  \<^verbatim>\<open>Collection\<close>: the primary index \<open>cache\<close> (decision identity to catalog), the principal
  index \<open>userCache\<close> (user name to decision identity), the expiry index
  \<open>userTimeoutCache\<close> (a \<^verbatim>\<open>sync.Map\<close>), the shared schemas \<open>schemas\<close> that \<^verbatim>\<open>c.schemas\<close> points
  to, listed in the order the \<^verbatim>\<open>range\<close> loop visits them, the base catalog, the templates
  by scope key (a \<^verbatim>\<open>nil\<close> template pointer is \<open>None\<close>), and the access-decision engine.
\<close>

record Collection =
  cache :: "APISchemas LRUExpireCache"
  userCache :: "string LRUExpireCache"
  userTimeoutCache :: "string \<rightharpoonup> UserTimeoutCacheValue"
  schemas :: "APISchema list"
  baseSchema :: APISchemas
  templates :: "string \<Rightarrow> Template option list"
  as :: AccessSetLookup

subsection \<open>\<^verbatim>\<open>schemasForSubject\<close> (lines 93-191)\<close>

definition MethodGet :: string where "MethodGet = ''GET''"

definition MethodDelete :: string where "MethodDelete = ''DELETE''"

definition MethodPut :: string where "MethodPut = ''PUT''"

definition MethodPatch :: string where "MethodPatch = ''PATCH''"

definition MethodPost :: string where "MethodPost = ''POST''"

text \<open>
  The loop over the verbs of one schema (lines 119-134): the grants for each verb, trimmed
  to the cluster-wide ones when the schema is not namespaced, and kept when any is left.
\<close>

fun verbsLoop ::
  "AccessSet \<Rightarrow> APISchema \<Rightarrow> GroupResource \<Rightarrow> string list \<Rightarrow> AccessListByVerb \<Rightarrow> AccessListByVerb" where
  "verbsLoop access s gr [] verbAccess = verbAccess"
| "verbsLoop access s gr (verb # verbs) verbAccess =
     (let a = AccessListFor access verb gr;
          a = (if \<not> attributes_Namespaced s
               then filter (\<lambda>access. Namespace access = All) a
               else a)
      in verbsLoop access s gr verbs
           (if length a > 0 then AList.update verb a verbAccess else verbAccess))"

text \<open>
  The special case of the core namespaces resource (lines 136-152). The write to
  \<^verbatim>\<open>s.CollectionMethods\<close> on line 149 goes through the pointer held by \<^verbatim>\<open>c.schemas\<close>: the
  first component is that shared schema after the block.
\<close>

definition namespacesFallback ::
  "AccessSet \<Rightarrow> GroupResource \<Rightarrow> APISchema \<Rightarrow> AccessListByVerb \<Rightarrow> APISchema \<times> AccessListByVerb" where
  "namespacesFallback access gr s verbAccess =
     (if length verbAccess = 0 then
        (if Group gr = '''' \<and> Resource gr = ''namespaces'' then
           (let accessList = map (\<lambda>ns. \<lparr>Namespace = All, ResourceName = ns\<rparr>) (Namespaces access);
                verbAccess = AList.update ''get'' accessList verbAccess;
                verbAccess = AList.update ''watch'' accessList verbAccess
            in (if length accessList = 0
                then s\<lparr>CollectionMethods := CollectionMethods s @ [MethodGet]\<rparr>
                else s,
                verbAccess))
         else (s, verbAccess))
      else (s, verbAccess))"

text \<open>The closure \<^verbatim>\<open>allowed\<close> (lines 154-159).\<close>

definition allowed :: "APISchema \<Rightarrow> string \<Rightarrow> string" where
  "allowed s method =
     (if attributes_DisallowMethods s method then ''blocked-'' @ method else method)"

text \<open>Lines 162-176, on the copy: attach the access map, then append the operations.\<close>

definition deriveMethods :: "AccessListByVerb \<Rightarrow> APISchema \<Rightarrow> APISchema" where
  "deriveMethods verbAccess s0 =
     (let s = attributes_SetAccess s0 verbAccess;
          s = (if AnyVerb verbAccess [''list'', ''get'']
               then (let s = s\<lparr>ResourceMethods := ResourceMethods s @ [allowed s MethodGet]\<rparr>
                     in s\<lparr>CollectionMethods := CollectionMethods s @ [allowed s MethodGet]\<rparr>)
               else s);
          s = (if AnyVerb verbAccess [''delete'']
               then s\<lparr>ResourceMethods := ResourceMethods s @ [allowed s MethodDelete]\<rparr>
               else s);
          s = (if AnyVerb verbAccess [''update'']
               then (let s = s\<lparr>ResourceMethods := ResourceMethods s @ [allowed s MethodPut]\<rparr>
                     in s\<lparr>ResourceMethods := ResourceMethods s @ [allowed s MethodPatch]\<rparr>)
               else s);
          s = (if AnyVerb verbAccess [''create'']
               then s\<lparr>CollectionMethods := CollectionMethods s @ [allowed s MethodPost]\<rparr>
               else s)
      in s)"

text \<open>
  The body of the loop over \<^verbatim>\<open>c.schemas\<close> (lines 107-181) up to the call of \<^verbatim>\<open>AddSchema\<close>:
  the shared schema as the body leaves it, and the schema handed to \<^verbatim>\<open>AddSchema\<close>, or
  \<open>None\<close> when the body reaches \<^verbatim>\<open>continue\<close> on line 179.
\<close>

definition filterSchema :: "AccessSet \<Rightarrow> APISchema \<Rightarrow> APISchema \<times> APISchema option" where
  "filterSchema access s0 =
     (let gr = attributes_GR s0
      in if Resource gr = '''' then (s0, Some s0)
         else
           (let verbs = attributes_Verbs s0;
                verbAccess = verbsLoop access s0 gr verbs [];
                (shared, verbAccess) = namespacesFallback access gr s0 verbAccess;
                s = DeepCopy shared;
                s = deriveMethods verbAccess s
            in if length (CollectionMethods s) = 0 \<and> length (ResourceMethods s) = 0
               then (shared, None)
               else (shared, Some s)))"

text \<open>
  The loop over \<^verbatim>\<open>c.schemas\<close> (lines 106-185): the shared schemas as the loop leaves them,
  and the catalog or the first error of \<^verbatim>\<open>AddSchema\<close>.
\<close>

fun schemasLoop ::
  "AccessSet \<Rightarrow> APISchema list \<Rightarrow> APISchemas \<Rightarrow> APISchema list \<times> (error + APISchemas)" where
  "schemasLoop access [] result = ([], Inr result)"
| "schemasLoop access (s # rest) result =
     (case filterSchema access s of
        (shared, None) \<Rightarrow>
          (let (rest', r) = schemasLoop access rest result in (shared # rest', r))
      | (shared, Some s') \<Rightarrow>
          (case AddSchema s' result of
             Inl err \<Rightarrow> (shared # rest, Inl err)
           | Inr result' \<Rightarrow>
               (let (rest', r) = schemasLoop access rest result' in (shared # rest', r))))"

definition schemasForSubject ::
  "APISchemas \<Rightarrow> Collection \<Rightarrow> AccessSet \<Rightarrow> Collection \<times> (error + APISchemas)" where
  "schemasForSubject builtin_Schemas c access =
     (case newSchemas builtin_Schemas of
        Inl err \<Rightarrow> (c, Inl err)
      | Inr result \<Rightarrow>
          (case AddSchemas (baseSchema c) result of
             Inl err \<Rightarrow> (c, Inl err)
           | Inr result \<Rightarrow>
               (case schemasLoop access (schemas c) result of
                  (shared, Inl err) \<Rightarrow> (c\<lparr>schemas := shared\<rparr>, Inl err)
                | (shared, Inr result) \<Rightarrow>
                    (c\<lparr>schemas := shared\<rparr>, Inr (result\<lparr>accessSet := Some access\<rparr>)))))"

subsection \<open>The cache layer (lines 41-91)\<close>

text \<open>\<^verbatim>\<open>purgeUserRecords\<close> (lines 87-91).\<close>

definition purgeUserRecords :: "string \<Rightarrow> Collection \<Rightarrow> Collection" where
  "purgeUserRecords id' c =
     (let c = c\<lparr>cache := cache_Remove id' (cache c)\<rparr>;
          c = c\<lparr>userTimeoutCache := (userTimeoutCache c)(id' := None)\<rparr>;
          c = c\<lparr>as := PurgeUserData id' (as c)\<rparr>
      in c)"

text \<open>
  \<^verbatim>\<open>removeOldRecords\<close> (lines 64-75). The values of \<^verbatim>\<open>c.userCache\<close> are the strings stored
  on line 79, so the type assertion \<^verbatim>\<open>current.(string)\<close> succeeds.
\<close>

definition removeOldRecords :: "Time \<Rightarrow> Collection \<Rightarrow> AccessSet \<Rightarrow> user_Info \<Rightarrow> Collection" where
  "removeOldRecords now c access user =
     (let (uc, current) = cache_Get now (GetName user) (userCache c);
          c = c\<lparr>userCache := uc\<rparr>
      in case current of
           None \<Rightarrow> c
         | Some currentId \<Rightarrow>
             if currentId \<noteq> ID access then
               (let c = purgeUserRecords currentId c
                in c\<lparr>userCache := cache_Remove (GetName user) (userCache c)\<rparr>)
             else c)"

text \<open>
  \<^verbatim>\<open>addToCache\<close> (lines 77-84); \<open>ct\<close> is the global \<^verbatim>\<open>CacheTimeout\<close>. Each of the two caches
  computes the expiry from its own reading of the clock, and line 81 reads the clock again.
\<close>

definition addToCache ::
  "Duration \<Rightarrow> Clock \<Rightarrow> Collection \<Rightarrow> AccessSet \<Rightarrow> user_Info \<Rightarrow> APISchemas \<Rightarrow> Collection" where
  "addToCache ct clk c access user schemas' =
     (let c = c\<lparr>cache := cache_Add (atAdd clk) (ID access) schemas' (cache_ttl ct) (cache c)\<rparr>;
          c = c\<lparr>userCache :=
                  cache_Add (atUserAdd clk) (GetName user) (ID access) (cache_ttl ct) (userCache c)\<rparr>;
          c = c\<lparr>userTimeoutCache := (userTimeoutCache c)(ID access \<mapsto>
                  \<lparr>Timeout = atNow clk + sint (cache_ttl ct), UserName = GetName user\<rparr>)\<rparr>
      in c)"

text \<open>
  \<^verbatim>\<open>Schemas\<close> (lines 41-62). The debug messages of lines 43-48 read the state and change
  nothing. The globals \<^verbatim>\<open>CacheTimeout\<close> and \<^verbatim>\<open>builtin.Schemas\<close> are the first two arguments,
  the readings of the clock the third.
\<close>

definition Schemas ::
  "Duration \<Rightarrow> APISchemas \<Rightarrow> Clock \<Rightarrow> Collection \<Rightarrow> user_Info \<Rightarrow> Collection \<times> (error + APISchemas)" where
  "Schemas ct builtin_Schemas clk c user =
     (let access = AccessFor (as c) user;
          c = removeOldRecords (atUserGet clk) c access user;
          (pc, val) = cache_Get (atGet clk) (ID access) (cache c);
          c = c\<lparr>cache := pc\<rparr>
      in case val of
           Some schemas' \<Rightarrow> (c, Inr schemas')
         | None \<Rightarrow>
             (case schemasForSubject builtin_Schemas c access of
                (c, Inl err) \<Rightarrow> (c, Inl err)
              | (c, Inr schemas') \<Rightarrow> (addToCache ct clk c access user schemas', Inr schemas')))"

subsection \<open>\<^verbatim>\<open>applyTemplates\<close> (lines 193-233)\<close>

text \<open>
  \<^verbatim>\<open>defaultStore\<close> (lines 193-199). \<^verbatim>\<open>templates[0].Store\<close> dereferences the first wildcard
  template; on a \<^verbatim>\<open>nil\<close> pointer the Go runtime panics, which is the error here.
\<close>

definition defaultStore :: "Collection \<Rightarrow> error + Store option" where
  "defaultStore c =
     (case templates c '''' of
        [] \<Rightarrow> Inr None
      | t # _ \<Rightarrow> (case t of None \<Rightarrow> Inl NilDereference | Some t' \<Rightarrow> Inr (TemplateStore t')))"

text \<open>The body of the inner loop (lines 213-230) for one template.\<close>

definition applyTemplate :: "Collection \<Rightarrow> Template option \<Rightarrow> APISchema \<Rightarrow> error + APISchema" where
  "applyTemplate c t0 schema =
     (case t0 of
        None \<Rightarrow> Inr schema
      | Some t \<Rightarrow>
          (let schema =
                 (case Formatter schema of
                    None \<Rightarrow> schema\<lparr>Formatter := TemplateFormatter t\<rparr>
                  | Some g \<Rightarrow>
                      (case TemplateFormatter t of
                         None \<Rightarrow> schema
                       | Some f \<Rightarrow> schema\<lparr>Formatter := Some (FormatterChain f g)\<rparr>));
               r = (if Store schema = None then
                      (case StoreFactory t of
                         None \<Rightarrow> Inr (schema\<lparr>Store := TemplateStore t\<rparr>)
                       | Some factory \<Rightarrow>
                           (case defaultStore c of
                              Inl err \<Rightarrow> Inl err
                            | Inr d \<Rightarrow> Inr (schema\<lparr>Store := factory d\<rparr>)))
                    else Inr schema)
           in case r of
                Inl err \<Rightarrow> Inl err
              | Inr schema \<Rightarrow>
                  (case Customize t of
                     None \<Rightarrow> Inr schema
                   | Some hook \<Rightarrow> Inr (hook schema))))"

fun applyTemplateList :: "Collection \<Rightarrow> Template option list \<Rightarrow> APISchema \<Rightarrow> error + APISchema" where
  "applyTemplateList c [] schema = Inr schema"
| "applyTemplateList c (t # ts) schema =
     (case applyTemplate c t schema of
        Inl err \<Rightarrow> Inl err
      | Inr schema' \<Rightarrow> applyTemplateList c ts schema')"

text \<open>
  The three scopes in the order of lines 205-209; \<^verbatim>\<open>fmt.Sprintf("%s/%s", g, k)\<close> is
  \<open>g @ ''/'' @ k\<close>. The nested loops visit the concatenation of the three lists.
\<close>

definition templatesFor :: "Collection \<Rightarrow> APISchema \<Rightarrow> Template option list list" where
  "templatesFor c schema =
     [templates c (SchemaID schema),
      templates c (attributes_Group schema @ ''/'' @ attributes_Kind schema),
      templates c '''']"

definition applyTemplates :: "Collection \<Rightarrow> APISchema \<Rightarrow> error + APISchema" where
  "applyTemplates c schema = applyTemplateList c (concat (templatesFor c schema)) schema"

subsection \<open>Notions used to state the properties of the filter\<close>

text \<open>
  The grants that lines 120-130 keep for one verb of a schema: the answer of the decision
  set, trimmed to the cluster-wide grants when the schema is not namespaced.
\<close>

definition surviving :: "AccessSet \<Rightarrow> APISchema \<Rightarrow> string \<Rightarrow> AccessList" where
  "surviving access s verb =
     (let a = AccessListFor access verb (attributes_GR s)
      in if \<not> attributes_Namespaced s then filter (\<lambda>access. Namespace access = All) a else a)"

text \<open>The value of \<^verbatim>\<open>verbAccess\<close> on line 153, which line 162 attaches to the copy.\<close>

definition verbAccessFor :: "AccessSet \<Rightarrow> APISchema \<Rightarrow> AccessListByVerb" where
  "verbAccessFor access s =
     snd (namespacesFallback access (attributes_GR s) s
            (verbsLoop access s (attributes_GR s) (attributes_Verbs s) []))"

definition cluster_wide_only :: "AccessListByVerb \<Rightarrow> bool" where
  "cluster_wide_only va = list_all (\<lambda>kv. list_all (\<lambda>a. Namespace a = All) (snd kv)) va"

text \<open>The entries that the loop over the shared schemas appends to the catalog.\<close>

definition added :: "AccessSet \<Rightarrow> APISchema list \<Rightarrow> (string \<times> APISchema) list" where
  "added access ss =
     map (\<lambda>x. (SchemaID x, x)) (List.map_filter (\<lambda>s. snd (filterSchema access s)) ss)"

definition distinct_ids :: "APISchemas \<Rightarrow> bool" where
  "distinct_ids a = distinct (map fst (SchemasByID a))"

text \<open>
  The table of section 4.2 in the spec's words: a verb is granted when the access map has a
  non-empty grant list for it; \<^verbatim>\<open>list\<close> or \<^verbatim>\<open>get\<close> gives resource-level and collection-level
  GET, \<^verbatim>\<open>delete\<close> gives resource-level DELETE, \<^verbatim>\<open>update\<close> gives resource-level PUT and
  PATCH, \<^verbatim>\<open>create\<close> gives collection-level POST; an operation on the block-list of the
  schema is recorded with the tag \<^verbatim>\<open>blocked-\<close>.
\<close>

definition granted :: "AccessListByVerb \<Rightarrow> string \<Rightarrow> bool" where
  "granted va verb = (case map_of va verb of None \<Rightarrow> False | Some l \<Rightarrow> l \<noteq> [])"

definition table_tag :: "APISchema \<Rightarrow> string \<Rightarrow> string" where
  "table_tag s operation =
     (if map_of (attr_disallowMethods s) operation = Some True
      then ''blocked-'' @ operation else operation)"

definition table_resource_ops :: "APISchema \<Rightarrow> AccessListByVerb \<Rightarrow> string list" where
  "table_resource_ops s va =
     map (table_tag s)
       ((if granted va ''list'' \<or> granted va ''get'' then [''GET''] else [])
        @ (if granted va ''delete'' then [''DELETE''] else [])
        @ (if granted va ''update'' then [''PUT'', ''PATCH''] else []))"

definition table_collection_ops :: "APISchema \<Rightarrow> AccessListByVerb \<Rightarrow> string list" where
  "table_collection_ops s va =
     map (table_tag s)
       ((if granted va ''list'' \<or> granted va ''get'' then [''GET''] else [])
        @ (if granted va ''create'' then [''POST''] else []))"

subsection \<open>Concrete inputs\<close>

text \<open>
  A cluster-scoped schema with a block-list, the core namespaces schema, a decision set
  with a namespace-scoped and a cluster-wide grant, and a decision set that grants nothing
  and sees no namespace.
\<close>

definition ex_clusterroles :: APISchema where
  "ex_clusterroles =
     \<lparr>SchemaID = ''rbac.clusterrole'', ResourceMethods = [], CollectionMethods = [],
      Formatter = None, Store = None, attr_group = ''rbac'', attr_kind = ''ClusterRole'',
      attr_resource = ''clusterroles'', attr_verbs = [''get'', ''list'', ''update''],
      attr_namespaced = False, attr_disallowMethods = [(''GET'', True)], attr_access = None\<rparr>"

definition ex_namespaces :: APISchema where
  "ex_namespaces =
     \<lparr>SchemaID = ''namespace'', ResourceMethods = [], CollectionMethods = [],
      Formatter = None, Store = None, attr_group = '''', attr_kind = ''Namespace'',
      attr_resource = ''namespaces'', attr_verbs = [''get'', ''list'', ''watch''],
      attr_namespaced = False, attr_disallowMethods = [], attr_access = None\<rparr>"

definition ex_grants :: "string \<Rightarrow> GroupResource \<Rightarrow> AccessList" where
  "ex_grants verb gr =
     (if Resource gr = ''clusterroles'' \<and> verb = ''list''
      then [\<lparr>Namespace = ''team-a'', ResourceName = ''*''\<rparr>,
            \<lparr>Namespace = ''*'', ResourceName = ''admin''\<rparr>]
      else [])"

definition ex_access :: AccessSet where
  "ex_access = \<lparr>ID = ''D1'', AccessListFor = ex_grants, Namespaces = [''ns1'', ''ns2'']\<rparr>"

definition ex_no_access :: AccessSet where
  "ex_no_access = \<lparr>ID = ''D2'', AccessListFor = (\<lambda>verb gr. []), Namespaces = []\<rparr>"

definition ex_user_access :: "user_Info \<Rightarrow> AccessSet" where
  "ex_user_access user = (if GetName user = ''alice'' then ex_access else ex_no_access)"

definition ex_collection :: Collection where
  "ex_collection =
     \<lparr>cache = Map.empty, userCache = Map.empty, userTimeoutCache = Map.empty,
      schemas = [ex_clusterroles, ex_namespaces], baseSchema = EmptyAPISchemas,
      templates = (\<lambda>k. []), as = \<lparr>AccessFor = ex_user_access, purged = []\<rparr>\<rparr>"

text \<open>The collection-level operations a catalog records under an identity.\<close>

definition collectionMethodsOf :: "error + APISchemas \<Rightarrow> string \<Rightarrow> string list option" where
  "collectionMethodsOf r id' =
     (case r of
        Inl err \<Rightarrow> None
      | Inr a \<Rightarrow> map_option CollectionMethods (map_of (SchemasByID a) id'))"

subsection \<open>Notions used to state the properties of the cache layer\<close>

text \<open>
  What the cache layer does before it looks the catalog up (lines 42-50): the staleness
  check, then the read of the primary index, which drops an expired record.
\<close>

definition afterStalenessCheck :: "Clock \<Rightarrow> Collection \<Rightarrow> user_Info \<Rightarrow> Collection" where
  "afterStalenessCheck clk c user =
     (let access = AccessFor (as c) user;
          c = removeOldRecords (atUserGet clk) c access user
      in c\<lparr>cache := fst (cache_Get (atGet clk) (ID access) (cache c))\<rparr>)"


text \<open>A decision identity has a record at an instant when \<^verbatim>\<open>c.cache.Get\<close> finds it then.\<close>

definition has_record :: "Time \<Rightarrow> Collection \<Rightarrow> string \<Rightarrow> bool" where
  "has_record t c id' = (snd (cache_Get t id' (cache c)) \<noteq> None)"


text \<open>
  The states of the collection that the operations of the cache layer reach from empty
  indexes: a call of \<^verbatim>\<open>Schemas\<close> or of \<^verbatim>\<open>addToCache\<close> with readings of the clock that do not
  go back, a call of \<^verbatim>\<open>purgeUserRecords\<close> or of \<^verbatim>\<open>removeOldRecords\<close>, a read of the primary
  index (which drops an expired record), the eviction of a record by either cache, and a
  change of what lies outside the three indexes (the decision engine, the shared schemas,
  the base catalog, the templates). The globals \<^verbatim>\<open>CacheTimeout\<close> and \<^verbatim>\<open>builtin.Schemas\<close> are
  fixed.
\<close>

inductive reachable :: "Duration \<Rightarrow> APISchemas \<Rightarrow> Collection \<Rightarrow> bool"
  for ct :: Duration and b :: APISchemas where
  reachable_new:
    "cache c = Map.empty \<Longrightarrow> userCache c = Map.empty \<Longrightarrow> userTimeoutCache c = Map.empty \<Longrightarrow>
     reachable ct b c"
| reachable_Schemas:
    "reachable ct b c \<Longrightarrow> ordered clk \<Longrightarrow> reachable ct b (fst (Schemas ct b clk c user))"
| reachable_addToCache:
    "reachable ct b c \<Longrightarrow> ordered clk \<Longrightarrow>
     reachable ct b (addToCache ct clk c access user schemas')"
| reachable_purgeUserRecords:
    "reachable ct b c \<Longrightarrow> reachable ct b (purgeUserRecords id' c)"
| reachable_removeOldRecords:
    "reachable ct b c \<Longrightarrow> reachable ct b (removeOldRecords now c access user)"
| reachable_Get:
    "reachable ct b c \<Longrightarrow> reachable ct b (c\<lparr>cache := fst (cache_Get now key (cache c))\<rparr>)"
| reachable_evict:
    "reachable ct b c \<Longrightarrow> reachable ct b (c\<lparr>cache := cache_Remove key (cache c)\<rparr>)"
| reachable_evict_user:
    "reachable ct b c \<Longrightarrow> reachable ct b (c\<lparr>userCache := cache_Remove key (userCache c)\<rparr>)"
| reachable_environment:
    "reachable ct b c \<Longrightarrow>
     reachable ct b (c\<lparr>as := l, schemas := ss, baseSchema := bs, templates := ts\<rparr>)"

subsection \<open>Concrete states of the cache layer\<close>

text \<open>
  Two principals and a collection with one shared schema and empty indexes. \<open>bob\<close> is
  cached first, under \<open>D2\<close>, then \<open>alice\<close> under \<open>D1\<close>, both with every reading of the clock
  at the instant 0 and with the default timeout. Then the decision identity of \<open>alice\<close> changes: to \<open>D2\<close>, which \<open>bob\<close> holds; to
  the fresh \<open>D3\<close>; and to \<open>D3\<close> while the base catalog has come to hold the identity of the
  shared schema, so that the computation of the catalog fails.
\<close>

definition ex_alice :: user_Info where
  "ex_alice = \<lparr>GetName = ''alice''\<rparr>"

definition ex_bob :: user_Info where
  "ex_bob = \<lparr>GetName = ''bob''\<rparr>"

definition ex_roles_collection :: Collection where
  "ex_roles_collection = ex_collection\<lparr>schemas := [ex_clusterroles]\<rparr>"

definition ex_clock :: Clock where
  "ex_clock = \<lparr>atUserGet = 0, atGet = 0, atAdd = 0, atUserAdd = 0, atNow = 0\<rparr>"

definition ex_after_bob :: Collection where
  "ex_after_bob =
     fst (Schemas default_CacheTimeout EmptyAPISchemas ex_clock ex_roles_collection ex_bob)"

definition ex_after_alice :: Collection where
  "ex_after_alice = fst (Schemas default_CacheTimeout EmptyAPISchemas ex_clock ex_after_bob ex_alice)"

definition ex_access3 :: AccessSet where
  "ex_access3 = ex_access\<lparr>ID := ''D3''\<rparr>"

definition ex_alice_to_D2 :: Collection where
  "ex_alice_to_D2 = ex_after_alice\<lparr>as := (as ex_after_alice)\<lparr>AccessFor := (\<lambda>u. ex_no_access)\<rparr>\<rparr>"

definition ex_alice_to_D3 :: Collection where
  "ex_alice_to_D3 = ex_after_alice\<lparr>as := (as ex_after_alice)\<lparr>AccessFor := (\<lambda>u. ex_access3)\<rparr>\<rparr>"

definition ex_alice_to_D3_broken :: Collection where
  "ex_alice_to_D3_broken =
     ex_alice_to_D3
       \<lparr>baseSchema := \<lparr>SchemasByID = [(''rbac.clusterrole'', ex_clusterroles)], accessSet = None\<rparr>\<rparr>"

definition ex_roles_filtered :: APISchema where
  "ex_roles_filtered = the (snd (filterSchema ex_access ex_clusterroles))"



subsection \<open>Notions used to state the properties of the template pass\<close>

text \<open>
  Section 4.3 in the spec's words. The formatter after a template: the template's when the
  schema has none, the template's chained before the existing one when both are there,
  the existing one otherwise. The store a template supplies: its store, or what its
  factory makes of the default store. The hook of a template, the identity when it has
  none.
\<close>

definition formatter_after :: "Formatter option \<Rightarrow> Template \<Rightarrow> Formatter option" where
  "formatter_after cur t =
     (case cur of
        None \<Rightarrow> TemplateFormatter t
      | Some g \<Rightarrow> (case TemplateFormatter t of None \<Rightarrow> Some g | Some f \<Rightarrow> Some (FormatterChain f g)))"

definition supplied_store :: "Store option \<Rightarrow> Template \<Rightarrow> Store option" where
  "supplied_store d t =
     (case StoreFactory t of None \<Rightarrow> TemplateStore t | Some factory \<Rightarrow> factory d)"

definition store_after :: "Store option \<Rightarrow> Store option \<Rightarrow> Template \<Rightarrow> Store option" where
  "store_after cur d t = (case cur of None \<Rightarrow> supplied_store d t | Some x \<Rightarrow> Some x)"

definition hook_of :: "Template \<Rightarrow> APISchema \<Rightarrow> APISchema" where
  "hook_of t s = (case Customize t of None \<Rightarrow> s | Some hook \<Rightarrow> hook s)"

text \<open>A template whose hook leaves the formatter and the store of every schema as they are.\<close>

definition keeps_formatter_and_store :: "Template \<Rightarrow> bool" where
  "keeps_formatter_and_store t =
     (\<forall>s. Formatter (hook_of t s) = Formatter s \<and> Store (hook_of t s) = Store s)"

text \<open>
  Over a list of templates in the order of the visit: the store of the first template
  that supplies one, and the chain of the formatters.
\<close>

fun first_store :: "Store option \<Rightarrow> Template option list \<Rightarrow> Store option" where
  "first_store d [] = None"
| "first_store d (None # ts) = first_store d ts"
| "first_store d (Some t # ts) =
     (case supplied_store d t of None \<Rightarrow> first_store d ts | Some x \<Rightarrow> Some x)"

fun chained_formatter :: "Formatter option \<Rightarrow> Template option list \<Rightarrow> Formatter option" where
  "chained_formatter cur [] = cur"
| "chained_formatter cur (None # ts) = chained_formatter cur ts"
| "chained_formatter cur (Some t # ts) = chained_formatter (formatter_after cur t) ts"

text \<open>
  Concrete templates: an exact template with a hook only, a group/kind template with a
  formatter and a store factory, a wildcard template with a formatter and a store.
\<close>

definition ex_hook :: "APISchema \<Rightarrow> APISchema" where
  "ex_hook s = s\<lparr>ResourceMethods := ''HOOK'' # ResourceMethods s\<rparr>"

definition ex_exact_template :: Template where
  "ex_exact_template =
     \<lparr>TemplateFormatter = None, TemplateStore = None, StoreFactory = None,
      Customize = Some ex_hook\<rparr>"

definition ex_factory :: "Store option \<Rightarrow> Store option" where
  "ex_factory d =
     (case d of None \<Rightarrow> None | Some (StoreHandle n) \<Rightarrow> Some (StoreHandle (''over-'' @ n)))"

definition ex_kind_template :: Template where
  "ex_kind_template =
     \<lparr>TemplateFormatter = Some (FormatterHandle ''kind''), TemplateStore = None,
      StoreFactory = Some ex_factory, Customize = None\<rparr>"

definition ex_wildcard_template :: Template where
  "ex_wildcard_template =
     \<lparr>TemplateFormatter = Some (FormatterHandle ''wildcard''),
      TemplateStore = Some (StoreHandle ''wildcard''), StoreFactory = None, Customize = None\<rparr>"

definition ex_templates :: "string \<Rightarrow> Template option list" where
  "ex_templates key =
     (if key = ''rbac.clusterrole'' then [Some ex_exact_template]
      else if key = '''' then [Some ex_wildcard_template]
      else [])"

definition ex_templates_kind :: "string \<Rightarrow> Template option list" where
  "ex_templates_kind key =
     (if key = ''rbac.clusterrole'' then [Some ex_exact_template]
      else if key = ''rbac/ClusterRole'' then [None, Some ex_kind_template]
      else if key = '''' then [Some ex_wildcard_template]
      else [])"

definition ex_templates_collection :: Collection where
  "ex_templates_collection = ex_collection\<lparr>templates := ex_templates\<rparr>"

definition ex_templates_kind_collection :: Collection where
  "ex_templates_kind_collection = ex_collection\<lparr>templates := ex_templates_kind\<rparr>"

text \<open>An exact template whose hook gives the schema a store of its own.\<close>

definition ex_store_hook :: "APISchema \<Rightarrow> APISchema" where
  "ex_store_hook s = s\<lparr>Store := Some (StoreHandle ''hook'')\<rparr>"

definition ex_store_hook_templates :: "string \<Rightarrow> Template option list" where
  "ex_store_hook_templates key =
     (if key = ''rbac.clusterrole''
      then [Some \<lparr>TemplateFormatter = None, TemplateStore = None, StoreFactory = None,
                   Customize = Some ex_store_hook\<rparr>]
      else if key = '''' then [Some ex_wildcard_template]
      else [])"

definition ex_store_hook_collection :: Collection where
  "ex_store_hook_collection = ex_collection\<lparr>templates := ex_store_hook_templates\<rparr>"

section \<open>Properties\<close>

lemmas attrs = attributes_GR_def attributes_Group_def attributes_Kind_def attributes_Verbs_def
  attributes_Namespaced_def attributes_DisallowMethods_def attributes_SetAccess_def DeepCopy_def

lemmas methods = MethodGet_def MethodDelete_def MethodPut_def MethodPatch_def MethodPost_def

subsection \<open>The cache timeout\<close>

lemma sint_word_of_int_64:
  "- (2 ^ 63) \<le> n \<Longrightarrow> n < 2 ^ 63 \<Longrightarrow> sint (word_of_int n :: 64 word) = n"
  by (simp add: sint_sbintrunc' signed_take_bit_int_eq_self)

lemma Atoi_range: "Atoi v = Inr n \<Longrightarrow> - (2 ^ 63) \<le> n \<and> n < 2 ^ 63"
  by (auto simp: Atoi_def Let_def split: if_splits option.splits)

lemma Atoi_empty: "Atoi '''' = Inl ErrSyntax"
  by (simp add: Atoi_def)

lemma hours_no_wrap:
  assumes "- 2562047 \<le> n" "n \<le> 2562047"
  shows "sint (cache_ttl (word_of_int n)) = n * 3600000000000"
proof -
  have r: "- (2 ^ 63) \<le> n" "n < 2 ^ 63" using assms by simp_all
  have s: "sint (word_of_int n :: 64 word) = n" using r by (rule sint_word_of_int_64)
  have h: "sint (3600000000000 :: 64 word) = 3600000000000" by simp
  have b: "- (2 ^ 63) \<le> n * 3600000000000" "n * 3600000000000 < 2 ^ 63" using assms by simp_all
  show ?thesis
    unfolding cache_ttl_def time_Hour_def sint_word_mult s h
    using b by (simp add: signed_take_bit_int_eq_self)
qed

text \<open>
  C9, as amended. For every value of the override: \<^verbatim>\<open>CacheTimeout\<close> is the integer the value
  denotes, of either sign, when \<^verbatim>\<open>strconv.Atoi\<close> accepts it, and the default 2160 otherwise
  (the empty value included); an error is logged exactly when the value is not empty and
  is rejected; and whenever the integer lies between -2562047 and 2562047 the time-to-live
  \<^verbatim>\<open>CacheTimeout*time.Hour\<close> is that number of hours. \<open>init\<close> is a total function: no value
  makes it fail.
\<close>

theorem init_CacheTimeout:
  "sint (CacheTimeout (init v)) = (case Atoi v of Inl err \<Rightarrow> 2160 | Inr num \<Rightarrow> num)
   \<and> error_log (init v) =
       (case Atoi v of Inl err \<Rightarrow> (if v = '''' then [] else [err]) | Inr num \<Rightarrow> [])
   \<and> (\<forall>num. Atoi v = Inr num \<longrightarrow> - 2562047 \<le> num \<longrightarrow> num \<le> 2562047 \<longrightarrow>
          sint (cache_ttl (CacheTimeout (init v))) = num * sint time_Hour)"
proof (cases "Atoi v")
  case (Inl err)
  then show ?thesis
    by (simp add: init_def default_CacheTimeout_def)
next
  case (Inr num)
  then have ne: "v \<noteq> ''''" using Atoi_empty by auto
  have ct: "CacheTimeout (init v) = word_of_int num" using Inr ne by (simp add: init_def)
  have "sint (CacheTimeout (init v)) = num"
    unfolding ct using Atoi_range [OF Inr] by (simp add: sint_word_of_int_64)
  moreover have "error_log (init v) = []" using Inr ne by (simp add: init_def)
  moreover have "- 2562047 \<le> num \<Longrightarrow> num \<le> 2562047 \<Longrightarrow>
      sint (cache_ttl (CacheTimeout (init v))) = num * sint time_Hour"
    unfolding ct by (simp add: hours_no_wrap time_Hour_def)
  ultimately show ?thesis using Inr by simp
qed

theorem init_CacheTimeout_witness:
  "sint (cache_ttl (CacheTimeout (init ''24''))) = 24 * 3600000000000
   \<and> sint (CacheTimeout (init ''-5'')) = - 5
   \<and> sint (CacheTimeout (init ''soon'')) = 2160 \<and> error_log (init ''soon'') = [ErrSyntax]
   \<and> sint (CacheTimeout (init '''')) = 2160 \<and> error_log (init '''') = []"
  using init_CacheTimeout [of "''24''"] init_CacheTimeout [of "''-5''"]
    init_CacheTimeout [of "''soon''"] init_CacheTimeout [of "''''"]
  by (simp add: Atoi_def digit_def time_Hour_def)

text \<open>
  The override \<^verbatim>\<open>-5\<close> is accepted: the time-to-live is minus five hours, which is neither a
  non-negative number of hours nor the default.
\<close>

theorem init_negative_override_counterexample:
  "sint (cache_ttl (CacheTimeout (init ''-5''))) = - 5 * sint time_Hour
   \<and> sint (cache_ttl (CacheTimeout (init ''-5''))) < 0
   \<and> cache_ttl (CacheTimeout (init ''-5'')) \<noteq> cache_ttl default_CacheTimeout"
  by (simp add: init_def Atoi_def digit_def cache_ttl_def time_Hour_def default_CacheTimeout_def)

subsection \<open>The access map of a filtered schema\<close>

lemma cluster_wide_only_update:
  "cluster_wide_only va \<Longrightarrow> list_all (\<lambda>a. Namespace a = All) l \<Longrightarrow>
   cluster_wide_only (AList.update k l va)"
  by (induction va) (auto simp: cluster_wide_only_def)

lemma verbsLoop_cluster_wide:
  "\<not> attributes_Namespaced s \<Longrightarrow> cluster_wide_only va \<Longrightarrow>
   cluster_wide_only (verbsLoop access s gr verbs va)"
  by (induction verbs arbitrary: va) (auto simp: Let_def cluster_wide_only_update list_all_iff)

lemma verbsLoop_map_of:
  "map_of (verbsLoop access s (attributes_GR s) verbs va) verb =
     (if verb \<in> set verbs \<and> surviving access s verb \<noteq> [] then Some (surviving access s verb)
      else map_of va verb)"
  by (induction verbs arbitrary: va) (auto simp: Let_def update_conv' surviving_def)

lemma verbsLoop_empty:
  "(verbsLoop access s (attributes_GR s) verbs va = []) =
     (va = [] \<and> (\<forall>verb \<in> set verbs. surviving access s verb = []))"
proof (induction verbs arbitrary: va)
  case Nil
  then show ?case by simp
next
  case (Cons verb verbs)
  have u: "AList.update verb l va \<noteq> []" for l :: AccessList
    by (cases va) auto
  show ?case
    by (auto simp: Cons.IH u Let_def surviving_def)
qed

lemma namespacesFallback_cluster_wide:
  "cluster_wide_only va \<Longrightarrow> cluster_wide_only (snd (namespacesFallback access gr s va))"
  by (auto simp: namespacesFallback_def Let_def cluster_wide_only_def list_all_iff)

lemma namespacesFallback_nonempty:
  "va \<noteq> [] \<Longrightarrow> namespacesFallback access gr s va = (s, va)"
  by (simp add: namespacesFallback_def)

lemma deriveMethods_access: "attr_access (deriveMethods va s) = Some va"
  by (simp add: deriveMethods_def Let_def attributes_SetAccess_def)

lemma deriveMethods_id: "SchemaID (deriveMethods va s) = SchemaID s"
  by (simp add: deriveMethods_def Let_def attributes_SetAccess_def)

lemma namespacesFallback_id: "SchemaID (fst (namespacesFallback access gr s va)) = SchemaID s"
  by (simp add: namespacesFallback_def Let_def)

lemma filterSchema_shared:
  "Resource (attributes_GR s) \<noteq> '''' \<Longrightarrow>
   fst (filterSchema access s) =
     fst (namespacesFallback access (attributes_GR s) s
            (verbsLoop access s (attributes_GR s) (attributes_Verbs s) []))"
  by (auto simp: filterSchema_def Let_def split: prod.splits if_splits)

lemma filterSchema_resource:
  "Resource (attributes_GR s) \<noteq> '''' \<Longrightarrow> snd (filterSchema access s) = Some s' \<Longrightarrow>
   s' = deriveMethods (verbAccessFor access s) (fst (filterSchema access s))"
  by (auto simp: filterSchema_def Let_def DeepCopy_def verbAccessFor_def
      split: prod.splits if_splits)

lemma filterSchema_id:
  assumes "snd (filterSchema access s) = Some s'"
  shows "SchemaID s' = SchemaID s"
proof (cases "Resource (attributes_GR s) = ''''")
  case True
  with assms show ?thesis by (simp add: filterSchema_def Let_def)
next
  case False
  from filterSchema_resource [OF False assms] show ?thesis
    by (simp add: deriveMethods_id filterSchema_shared [OF False] namespacesFallback_id)
qed

lemma verbAccessFor_cluster_wide:
  "\<not> attributes_Namespaced s \<Longrightarrow> cluster_wide_only (verbAccessFor access s)"
  unfolding verbAccessFor_def
  by (rule namespacesFallback_cluster_wide, rule verbsLoop_cluster_wide)
     (simp_all add: cluster_wide_only_def)

lemma verbAccessFor_surviving:
  assumes "verb \<in> set (attributes_Verbs s)" "surviving access s verb \<noteq> []"
  shows "map_of (verbAccessFor access s) verb = Some (surviving access s verb)"
proof -
  let ?va = "verbsLoop access s (attributes_GR s) (attributes_Verbs s) []"
  have m: "map_of ?va verb = Some (surviving access s verb)"
    using assms by (simp add: verbsLoop_map_of)
  then have "?va \<noteq> []" by auto
  then show ?thesis using m by (simp add: verbAccessFor_def namespacesFallback_nonempty)
qed

subsection \<open>The catalog that \<^verbatim>\<open>schemasForSubject\<close> returns\<close>

lemma AddSchema_Inr:
  "AddSchema x a = Inr a' \<Longrightarrow>
   SchemasByID a' = SchemasByID a @ [(SchemaID x, x)] \<and> accessSet a' = accessSet a"
  by (auto simp: AddSchema_def split: if_splits)

lemma added_Cons:
  "added access (s # ss) =
     (case snd (filterSchema access s) of None \<Rightarrow> [] | Some x \<Rightarrow> [(SchemaID x, x)])
     @ added access ss"
  by (simp add: added_def map_filter_simps split: option.splits)

lemma schemasLoop_entries:
  "schemasLoop access ss result = (ss', Inr result') \<Longrightarrow>
   SchemasByID result' = SchemasByID result @ added access ss
   \<and> accessSet result' = accessSet result
   \<and> ss' = map (\<lambda>s. fst (filterSchema access s)) ss"
proof (induction ss arbitrary: result ss')
  case Nil
  then show ?case by (simp add: added_def map_filter_simps)
next
  case (Cons s ss)
  show ?case
  proof (cases "filterSchema access s")
    case (Pair shared o')
    show ?thesis
    proof (cases o')
      case None
      with Pair Cons.prems obtain rest' where
        r: "schemasLoop access ss result = (rest', Inr result')" "ss' = shared # rest'"
        by (auto split: prod.splits)
      from Cons.IH [OF r(1)] show ?thesis using Pair None r(2) by (simp add: added_Cons)
    next
      case (Some x)
      with Pair Cons.prems obtain result1 rest' where
        r: "AddSchema x result = Inr result1"
           "schemasLoop access ss result1 = (rest', Inr result')" "ss' = shared # rest'"
        by (auto split: prod.splits sum.splits)
      from Cons.IH [OF r(2)] AddSchema_Inr [OF r(1)] show ?thesis
        using Pair Some r(3) by (simp add: added_Cons)
    qed
  qed
qed

lemma AddSchema_distinct: "AddSchema x a = Inr a' \<Longrightarrow> distinct_ids a \<Longrightarrow> distinct_ids a'"
  by (auto simp: AddSchema_def distinct_ids_def split: if_splits)

lemma AddSchemas_list_distinct:
  "AddSchemas_list l a = Inr a' \<Longrightarrow> distinct_ids a \<Longrightarrow> distinct_ids a'"
  by (induction l arbitrary: a) (auto split: sum.splits dest: AddSchema_distinct)

lemma schemasLoop_distinct:
  "schemasLoop access ss result = (ss', Inr result') \<Longrightarrow> distinct_ids result \<Longrightarrow>
   distinct_ids result'"
proof (induction ss arbitrary: result ss')
  case Nil
  then show ?case by simp
next
  case (Cons s ss)
  then show ?case
    by (auto split: prod.splits option.splits sum.splits dest: AddSchema_distinct)
qed

lemma schemasForSubject_Inr:
  assumes "schemasForSubject b c access = (c', Inr result)"
  shows "\<exists>pre. SchemasByID result = pre @ added access (schemas c) \<and> distinct_ids result
      \<and> accessSet result = Some access
      \<and> c' = c\<lparr>schemas := map (\<lambda>s. fst (filterSchema access s)) (schemas c)\<rparr>"
proof -
  from assms obtain r0 r1 shared r2 where
    a: "newSchemas b = Inr r0" "AddSchemas (baseSchema c) r0 = Inr r1"
       "schemasLoop access (schemas c) r1 = (shared, Inr r2)"
       "result = r2\<lparr>accessSet := Some access\<rparr>" "c' = c\<lparr>schemas := shared\<rparr>"
    by (auto simp: schemasForSubject_def split: sum.splits prod.splits)
  have "distinct_ids r0" using a(1)
    by (auto simp: newSchemas_def AddSchemas_def EmptyAPISchemas_def distinct_ids_def
        split: sum.splits dest!: AddSchemas_list_distinct [unfolded distinct_ids_def])
  then have "distinct_ids r1"
    using a(2) by (auto simp: AddSchemas_def dest: AddSchemas_list_distinct)
  then have d: "distinct_ids r2" using a(3) by (rule schemasLoop_distinct [rotated])
  have e: "SchemasByID result = SchemasByID r1 @ added access (schemas c)"
    using schemasLoop_entries [OF a(3)] a(4) by simp
  have f: "c' = c\<lparr>schemas := map (\<lambda>s. fst (filterSchema access s)) (schemas c)\<rparr>"
    using schemasLoop_entries [OF a(3)] a(5) by simp
  have g: "distinct_ids result" using d a(4) by (simp add: distinct_ids_def)
  have h: "accessSet result = Some access" using a(4) by simp
  from e f g h show ?thesis by blast
qed

lemma added_mem:
  "s \<in> set ss \<Longrightarrow> snd (filterSchema access s) = Some s' \<Longrightarrow>
   (SchemaID s', s') \<in> set (added access ss)"
  by (induction ss) (auto simp: added_Cons)

lemma schemasForSubject_lookup:
  assumes "schemasForSubject b c access = (c', Inr result)"
    and "s \<in> set (schemas c)"
    and "snd (filterSchema access s) = Some s'"
  shows "map_of (SchemasByID result) (SchemaID s) = Some s'"
proof -
  from schemasForSubject_Inr [OF assms(1)] obtain pre where
    r: "SchemasByID result = pre @ added access (schemas c)" "distinct_ids result"
    by blast
  have "(SchemaID s', s') \<in> set (SchemasByID result)"
    using added_mem [OF assms(2,3)] r(1) by simp
  then show ?thesis
    using r(2) filterSchema_id [OF assms(3)] by (simp add: distinct_ids_def)
qed

text \<open>
  C4. Let \<open>s\<close> be a schema of the base catalog that names a resource and is not
  namespaced, and let the filter keep it as \<open>s'\<close>. Then the catalog returned holds \<open>s'\<close>
  under the identity of \<open>s\<close>; the access map attached to \<open>s'\<close> holds no grant whose scope is
  other than the cluster-wide marker; and for every verb of \<open>s\<close> for which the decision
  set returns a cluster-wide grant, the access map holds exactly the cluster-wide grants
  returned for that verb.
\<close>

theorem cluster_scope_grants_trimmed:
  assumes "schemasForSubject b c access = (c', Inr result)"
    and "s \<in> set (schemas c)"
    and "Resource (attributes_GR s) \<noteq> ''''"
    and "\<not> attributes_Namespaced s"
    and "snd (filterSchema access s) = Some s'"
  shows "map_of (SchemasByID result) (SchemaID s) = Some s'
       \<and> attr_access s' = Some (verbAccessFor access s)
       \<and> (\<forall>verb l a. map_of (verbAccessFor access s) verb = Some l \<longrightarrow> a \<in> set l \<longrightarrow>
             Namespace a = All)
       \<and> (\<forall>verb \<in> set (attributes_Verbs s).
             filter (\<lambda>a. Namespace a = All) (AccessListFor access verb (attributes_GR s)) \<noteq> [] \<longrightarrow>
             map_of (verbAccessFor access s) verb =
               Some (filter (\<lambda>a. Namespace a = All) (AccessListFor access verb (attributes_GR s))))"
proof -
  have 1: "map_of (SchemasByID result) (SchemaID s) = Some s'"
    using assms(1,2,5) by (rule schemasForSubject_lookup)
  have 2: "attr_access s' = Some (verbAccessFor access s)"
    using filterSchema_resource [OF assms(3,5)] by (simp add: deriveMethods_access)
  have cw: "cluster_wide_only (verbAccessFor access s)"
    using assms(4) by (rule verbAccessFor_cluster_wide)
  have 3: "\<forall>verb l a. map_of (verbAccessFor access s) verb = Some l \<longrightarrow> a \<in> set l \<longrightarrow>
             Namespace a = All"
  proof (intro allI impI)
    fix verb l a
    assume "map_of (verbAccessFor access s) verb = Some l" "a \<in> set l"
    then have "(verb, l) \<in> set (verbAccessFor access s)" by (auto dest: map_of_SomeD)
    with cw \<open>a \<in> set l\<close> show "Namespace a = All"
      by (auto simp: cluster_wide_only_def list_all_iff)
  qed
  have sv: "surviving access s verb =
      filter (\<lambda>a. Namespace a = All) (AccessListFor access verb (attributes_GR s))" for verb
    using assms(4) by (simp add: surviving_def)
  have 4: "\<forall>verb \<in> set (attributes_Verbs s).
             filter (\<lambda>a. Namespace a = All) (AccessListFor access verb (attributes_GR s)) \<noteq> [] \<longrightarrow>
             map_of (verbAccessFor access s) verb =
               Some (filter (\<lambda>a. Namespace a = All) (AccessListFor access verb (attributes_GR s)))"
    using verbAccessFor_surviving [of _ s access] by (simp add: sv)
  from 1 2 3 4 show ?thesis by blast
qed

subsection \<open>The filter on the concrete inputs\<close>

lemmas ex_defs = ex_clusterroles_def ex_namespaces_def ex_grants_def ex_access_def
  ex_no_access_def

lemmas filter_defs = filterSchema_def namespacesFallback_def deriveMethods_def AnyVerb_def
  allowed_def All_def Let_def

lemmas catalog_defs = schemasForSubject_def newSchemas_def AddSchemas_def EmptyAPISchemas_def
  AddSchema_def

lemma ex_filter_clusterroles:
  "filterSchema ex_access ex_clusterroles =
     (ex_clusterroles,
      Some (ex_clusterroles
              \<lparr>ResourceMethods := [''blocked-GET''], CollectionMethods := [''blocked-GET''],
               attr_access := Some [(''list'', [\<lparr>Namespace = ''*'', ResourceName = ''admin''\<rparr>])]\<rparr>))"
  by (simp add: ex_defs filter_defs attrs methods)

lemma ex_filter_namespaces:
  "filterSchema ex_access ex_namespaces =
     (ex_namespaces,
      Some (ex_namespaces
              \<lparr>ResourceMethods := [''GET''], CollectionMethods := [''GET''],
               attr_access :=
                 Some [(''get'', [\<lparr>Namespace = ''*'', ResourceName = ''ns1''\<rparr>,
                                  \<lparr>Namespace = ''*'', ResourceName = ''ns2''\<rparr>]),
                       (''watch'', [\<lparr>Namespace = ''*'', ResourceName = ''ns1''\<rparr>,
                                    \<lparr>Namespace = ''*'', ResourceName = ''ns2''\<rparr>])]\<rparr>))"
  by (simp add: ex_defs filter_defs attrs methods)

lemma ex_filter_clusterroles_none:
  "filterSchema ex_no_access ex_clusterroles = (ex_clusterroles, None)"
  by (simp add: ex_defs filter_defs attrs methods)

lemma ex_filter_namespaces_none:
  "filterSchema ex_no_access ex_namespaces =
     (ex_namespaces\<lparr>CollectionMethods := [''GET'']\<rparr>,
      Some (ex_namespaces
              \<lparr>CollectionMethods := [''GET''],
               attr_access := Some [(''get'', []), (''watch'', [])]\<rparr>))"
  by (simp add: ex_defs filter_defs attrs methods)

lemma ex_filter_namespaces_none_again:
  "filterSchema ex_no_access (ex_namespaces\<lparr>CollectionMethods := [''GET'']\<rparr>) =
     (ex_namespaces\<lparr>CollectionMethods := [''GET'', ''GET'']\<rparr>,
      Some (ex_namespaces
              \<lparr>CollectionMethods := [''GET'', ''GET''],
               attr_access := Some [(''get'', []), (''watch'', [])]\<rparr>))"
  by (simp add: ex_defs filter_defs attrs methods)

lemma ex_ids:
  "SchemaID ex_clusterroles = ''rbac.clusterrole''" "SchemaID ex_namespaces = ''namespace''"
  by (simp_all add: ex_defs)

lemma ex_schemasForSubject:
  "schemasForSubject EmptyAPISchemas ex_collection ex_access =
     (ex_collection,
      Inr \<lparr>SchemasByID =
             [(''rbac.clusterrole'', the (snd (filterSchema ex_access ex_clusterroles))),
              (''namespace'', the (snd (filterSchema ex_access ex_namespaces)))],
           accessSet = Some ex_access\<rparr>)"
  by (simp add: catalog_defs ex_collection_def ex_filter_clusterroles ex_filter_namespaces ex_ids)

lemma ex_schemasForSubject_none:
  "schemasForSubject EmptyAPISchemas ex_collection ex_no_access =
     (ex_collection\<lparr>schemas := [ex_clusterroles, ex_namespaces\<lparr>CollectionMethods := [''GET'']\<rparr>]\<rparr>,
      Inr \<lparr>SchemasByID =
             [(''namespace'', the (snd (filterSchema ex_no_access ex_namespaces)))],
           accessSet = Some ex_no_access\<rparr>)"
  by (simp add: catalog_defs ex_collection_def ex_filter_clusterroles_none
      ex_filter_namespaces_none ex_ids)

lemma ex_schemasForSubject_none_again:
  "schemasForSubject EmptyAPISchemas
     (ex_collection\<lparr>schemas := [ex_clusterroles, ex_namespaces\<lparr>CollectionMethods := [''GET'']\<rparr>]\<rparr>)
     ex_no_access =
     (ex_collection
        \<lparr>schemas := [ex_clusterroles, ex_namespaces\<lparr>CollectionMethods := [''GET'', ''GET'']\<rparr>]\<rparr>,
      Inr \<lparr>SchemasByID =
             [(''namespace'',
               ex_namespaces\<lparr>CollectionMethods := [''GET'', ''GET''],
                              attr_access := Some [(''get'', []), (''watch'', [])]\<rparr>)],
           accessSet = Some ex_no_access\<rparr>)"
  by (simp add: catalog_defs ex_collection_def ex_filter_clusterroles_none
      ex_filter_namespaces_none_again ex_ids)

theorem cluster_scope_grants_trimmed_witness:
  "map_of (SchemasByID (projr (snd (schemasForSubject EmptyAPISchemas ex_collection ex_access))))
       ''rbac.clusterrole'' = Some (the (snd (filterSchema ex_access ex_clusterroles)))
   \<and> attr_access (the (snd (filterSchema ex_access ex_clusterroles))) =
       Some [(''list'', [\<lparr>Namespace = All, ResourceName = ''admin''\<rparr>])]"
proof -
  have 1: "ex_clusterroles \<in> set (schemas ex_collection)" by (simp add: ex_collection_def)
  have 2: "Resource (attributes_GR ex_clusterroles) \<noteq> []" by (simp add: attrs ex_defs)
  have 3: "\<not> attributes_Namespaced ex_clusterroles" by (simp add: attrs ex_defs)
  have 4: "snd (filterSchema ex_access ex_clusterroles) =
      Some (the (snd (filterSchema ex_access ex_clusterroles)))"
    by (simp add: ex_filter_clusterroles)
  have 5: "verbAccessFor ex_access ex_clusterroles =
      [(''list'', [\<lparr>Namespace = All, ResourceName = ''admin''\<rparr>])]"
    by (simp add: verbAccessFor_def ex_defs filter_defs attrs)
  from cluster_scope_grants_trimmed [OF ex_schemasForSubject 1 2 3 4] show ?thesis
    by (simp add: ex_schemasForSubject ex_ids 5)
qed

subsection \<open>The operations of a filtered schema\<close>

lemma allowed_table_tag: "allowed s m = table_tag s m"
  by (auto simp: allowed_def table_tag_def attributes_DisallowMethods_def split: option.splits)

lemma AnyVerb_granted:
  "AnyVerb va [v] = granted va v" "AnyVerb va [v, w] = (granted va v \<or> granted va w)"
  by (auto simp: AnyVerb_def granted_def split: option.splits)

lemma table_tag_upd [simp]:
  "table_tag (s\<lparr>ResourceMethods := x\<rparr>) = table_tag s"
  "table_tag (s\<lparr>CollectionMethods := y\<rparr>) = table_tag s"
  "table_tag (s\<lparr>attr_access := z\<rparr>) = table_tag s"
  by (simp_all add: table_tag_def fun_eq_iff)

lemma deriveMethods_methods:
  "ResourceMethods (deriveMethods va s) = ResourceMethods s @ table_resource_ops s va"
  "CollectionMethods (deriveMethods va s) = CollectionMethods s @ table_collection_ops s va"
  unfolding deriveMethods_def Let_def AnyVerb_granted allowed_table_tag
      table_resource_ops_def table_collection_ops_def attributes_SetAccess_def methods
  by (cases "granted va ''list'' \<or> granted va ''get''"; cases "granted va ''delete''";
      cases "granted va ''update''"; cases "granted va ''create''"; simp)+

lemma namespacesFallback_fst:
  "fst (namespacesFallback access gr s va) =
     s\<lparr>CollectionMethods := CollectionMethods s @
         (if va = [] \<and> Group gr = '''' \<and> Resource gr = ''namespaces'' \<and> Namespaces access = []
          then [MethodGet] else [])\<rparr>"
  by (simp add: namespacesFallback_def Let_def)

lemma table_ops_fallback:
  "table_resource_ops (fst (namespacesFallback access gr s va)) = table_resource_ops s"
  "table_collection_ops (fst (namespacesFallback access gr s va)) = table_collection_ops s"
  by (simp_all add: namespacesFallback_fst table_resource_ops_def table_collection_ops_def
      table_tag_def fun_eq_iff)

text \<open>
  C6. Let \<open>s\<close> be a schema of the base catalog that names a resource, and let the filter
  keep it as \<open>s'\<close>. Then the catalog returned holds \<open>s'\<close> under the identity of \<open>s\<close>, with
  the verb-to-grants map attached, and the operations of \<open>s'\<close> are those of \<open>s\<close> followed
  by the operations of the table of section 4.2 read off that map, each in its tagged form
  when it is on the block-list of \<open>s\<close>: list or get gives resource-level and
  collection-level GET, delete gives resource-level DELETE, update gives resource-level
  PUT and PATCH, create gives collection-level POST. (The only other operation is the
  collection-level GET that the namespaces special case appends before the table is
  applied.)
\<close>

theorem operations_follow_table:
  assumes "schemasForSubject b c access = (c', Inr result)"
    and "s \<in> set (schemas c)"
    and "Resource (attributes_GR s) \<noteq> ''''"
    and "snd (filterSchema access s) = Some s'"
  shows "map_of (SchemasByID result) (SchemaID s) = Some s'
       \<and> attr_access s' = Some (verbAccessFor access s)
       \<and> ResourceMethods s' = ResourceMethods s @ table_resource_ops s (verbAccessFor access s)
       \<and> CollectionMethods s' =
           CollectionMethods s
           @ (if (\<forall>verb \<in> set (attributes_Verbs s). surviving access s verb = [])
                 \<and> attributes_GR s = \<lparr>Group = '''', Resource = ''namespaces''\<rparr>
                 \<and> Namespaces access = []
              then [MethodGet] else [])
           @ table_collection_ops s (verbAccessFor access s)"
proof -
  let ?va0 = "verbsLoop access s (attributes_GR s) (attributes_Verbs s) []"
  have 1: "map_of (SchemasByID result) (SchemaID s) = Some s'"
    using assms(1,2,4) by (rule schemasForSubject_lookup)
  have s': "s' = deriveMethods (verbAccessFor access s) (fst (filterSchema access s))"
    using assms(3,4) by (rule filterSchema_resource)
  have sh: "fst (filterSchema access s) = fst (namespacesFallback access (attributes_GR s) s ?va0)"
    using assms(3) by (rule filterSchema_shared)
  have 2: "attr_access s' = Some (verbAccessFor access s)"
    unfolding s' by (rule deriveMethods_access)
  have 3: "ResourceMethods s' = ResourceMethods s @ table_resource_ops s (verbAccessFor access s)"
    unfolding s' sh deriveMethods_methods table_ops_fallback
    by (simp add: namespacesFallback_fst)
  have gr: "(Group (attributes_GR s) = '''' \<and> Resource (attributes_GR s) = ''namespaces'')
      = (attributes_GR s = \<lparr>Group = '''', Resource = ''namespaces''\<rparr>)"
    by (auto simp: attributes_GR_def)
  have 4: "CollectionMethods s' =
           CollectionMethods s
           @ (if (\<forall>verb \<in> set (attributes_Verbs s). surviving access s verb = [])
                 \<and> attributes_GR s = \<lparr>Group = '''', Resource = ''namespaces''\<rparr>
                 \<and> Namespaces access = []
              then [MethodGet] else [])
           @ table_collection_ops s (verbAccessFor access s)"
    unfolding s' sh deriveMethods_methods table_ops_fallback
    by (simp add: namespacesFallback_fst verbsLoop_empty gr [symmetric])
  from 1 2 3 4 show ?thesis by blast
qed

theorem operations_follow_table_witness:
  "ResourceMethods (the (snd (filterSchema ex_access ex_clusterroles))) = [''blocked-GET'']
   \<and> CollectionMethods (the (snd (filterSchema ex_access ex_clusterroles))) = [''blocked-GET'']
   \<and> table_resource_ops ex_clusterroles (verbAccessFor ex_access ex_clusterroles) = [''blocked-GET'']"
proof -
  have 1: "ex_clusterroles \<in> set (schemas ex_collection)" by (simp add: ex_collection_def)
  have 2: "Resource (attributes_GR ex_clusterroles) \<noteq> []" by (simp add: attrs ex_defs)
  have 4: "snd (filterSchema ex_access ex_clusterroles) =
      Some (the (snd (filterSchema ex_access ex_clusterroles)))"
    by (simp add: ex_filter_clusterroles)
  have 5: "verbAccessFor ex_access ex_clusterroles =
      [(''list'', [\<lparr>Namespace = All, ResourceName = ''admin''\<rparr>])]"
    by (simp add: verbAccessFor_def ex_defs filter_defs attrs)
  have 6: "table_resource_ops ex_clusterroles [(''list'', [\<lparr>Namespace = All, ResourceName = ''admin''\<rparr>])] = [''blocked-GET'']"
    by (simp add: table_resource_ops_def table_tag_def granted_def ex_defs)
  have 7: "table_collection_ops ex_clusterroles [(''list'', [\<lparr>Namespace = All, ResourceName = ''admin''\<rparr>])] = [''blocked-GET'']"
    by (simp add: table_collection_ops_def table_tag_def granted_def ex_defs)
  have 8: "ResourceMethods ex_clusterroles = []" "CollectionMethods ex_clusterroles = []"
    "attributes_GR ex_clusterroles \<noteq> \<lparr>Group = '''', Resource = ''namespaces''\<rparr>"
    by (simp_all add: ex_defs attrs)
  from operations_follow_table [OF ex_schemasForSubject 1 2 4] show ?thesis
    by (simp add: 5 6 7 8)
qed

lemma filterSchema_snd:
  "Resource (attributes_GR s) \<noteq> [] \<Longrightarrow>
   snd (filterSchema access s) =
     (let s' = deriveMethods (verbAccessFor access s)
                 (fst (namespacesFallback access (attributes_GR s) s
                    (verbsLoop access s (attributes_GR s) (attributes_Verbs s) [])))
      in if CollectionMethods s' = [] \<and> ResourceMethods s' = [] then None else Some s')"
  by (simp add: filterSchema_def Let_def DeepCopy_def verbAccessFor_def split: prod.splits)

text \<open>
  C5. Let \<open>s\<close> be the core namespaces schema (empty group, resource \<^verbatim>\<open>namespaces\<close>) of the
  base catalog, and let no verb of \<open>s\<close> have a surviving grant. Then the catalog returned
  holds a schema under the identity of \<open>s\<close> whose access map has, for \<^verbatim>\<open>get\<close> and for
  \<^verbatim>\<open>watch\<close>, one cluster-wide grant per visible namespace, named after it, in order; and
  when no namespace is visible that schema still lists GET among its collection-level
  operations.
\<close>

theorem namespaces_listing_fallback:
  assumes "schemasForSubject b c access = (c', Inr result)"
    and "s \<in> set (schemas c)"
    and "attributes_GR s = \<lparr>Group = '''', Resource = ''namespaces''\<rparr>"
    and "\<forall>verb \<in> set (attributes_Verbs s). surviving access s verb = []"
  shows "\<exists>s'. map_of (SchemasByID result) (SchemaID s) = Some s'
       \<and> attr_access s' =
           Some [(''get'', map (\<lambda>ns. \<lparr>Namespace = All, ResourceName = ns\<rparr>) (Namespaces access)),
                 (''watch'', map (\<lambda>ns. \<lparr>Namespace = All, ResourceName = ns\<rparr>) (Namespaces access))]
       \<and> (Namespaces access = [] \<longrightarrow> MethodGet \<in> set (CollectionMethods s'))"
proof -
  let ?va0 = "verbsLoop access s (attributes_GR s) (attributes_Verbs s) []"
  let ?l = "map (\<lambda>ns. \<lparr>Namespace = All, ResourceName = ns\<rparr>) (Namespaces access)"
  have r: "Resource (attributes_GR s) \<noteq> ''''" using assms(3) by simp
  have e: "?va0 = []" using assms(4) by (simp add: verbsLoop_empty)
  have va: "verbAccessFor access s = [(''get'', ?l), (''watch'', ?l)]"
    unfolding verbAccessFor_def e using assms(3) by (simp add: namespacesFallback_def Let_def)
  have sh: "fst (filterSchema access s) = fst (namespacesFallback access (attributes_GR s) s [])"
    using filterSchema_shared [OF r] e by simp
  define s' where "s' = deriveMethods (verbAccessFor access s) (fst (filterSchema access s))"
  have cm: "CollectionMethods s' \<noteq> []"
  proof (cases "Namespaces access = []")
    case True
    then show ?thesis
      unfolding s'_def sh deriveMethods_methods using assms(3) by (simp add: namespacesFallback_fst)
  next
    case False
    then have "granted (verbAccessFor access s) ''get''" by (simp add: va granted_def)
    then show ?thesis
      unfolding s'_def deriveMethods_methods by (simp add: table_collection_ops_def)
  qed
  have f: "snd (filterSchema access s) = Some s'"
    using cm unfolding s'_def sh filterSchema_snd [OF r] e by (simp add: Let_def)
  have 1: "map_of (SchemasByID result) (SchemaID s) = Some s'"
    using assms(1,2) f by (rule schemasForSubject_lookup)
  have 2: "attr_access s' = Some [(''get'', ?l), (''watch'', ?l)]"
    unfolding s'_def by (simp add: deriveMethods_access va)
  have 3: "Namespaces access = [] \<longrightarrow> MethodGet \<in> set (CollectionMethods s')"
    unfolding s'_def sh deriveMethods_methods using assms(3) by (simp add: namespacesFallback_fst)
  from 1 2 3 show ?thesis by blast
qed

subsection \<open>The namespaces special case on the concrete inputs\<close>

theorem namespaces_listing_fallback_witness:
  "(\<exists>s'. map_of (SchemasByID (projr (snd (schemasForSubject EmptyAPISchemas ex_collection ex_access))))
           ''namespace'' = Some s'
       \<and> attr_access s' =
           Some [(''get'', [\<lparr>Namespace = All, ResourceName = ''ns1''\<rparr>, \<lparr>Namespace = All, ResourceName = ''ns2''\<rparr>]),
                 (''watch'', [\<lparr>Namespace = All, ResourceName = ''ns1''\<rparr>, \<lparr>Namespace = All, ResourceName = ''ns2''\<rparr>])])
   \<and> (\<exists>s'. map_of (SchemasByID (projr (snd (schemasForSubject EmptyAPISchemas ex_collection ex_no_access))))
           ''namespace'' = Some s'
       \<and> attr_access s' = Some [(''get'', []), (''watch'', [])]
       \<and> MethodGet \<in> set (CollectionMethods s'))"
proof -
  have 1: "ex_namespaces \<in> set (schemas ex_collection)" by (simp add: ex_collection_def)
  have 2: "attributes_GR ex_namespaces = \<lparr>Group = '''', Resource = ''namespaces''\<rparr>"
    by (simp add: attrs ex_defs)
  have 3: "\<forall>verb \<in> set (attributes_Verbs ex_namespaces). surviving ex_access ex_namespaces verb = []"
    by (simp add: surviving_def attrs ex_defs)
  have 4: "\<forall>verb \<in> set (attributes_Verbs ex_namespaces). surviving ex_no_access ex_namespaces verb = []"
    by (simp add: surviving_def attrs ex_defs)
  have 5: "Namespaces ex_access = [''ns1'', ''ns2'']" "Namespaces ex_no_access = []"
    by (simp_all add: ex_defs)
  from namespaces_listing_fallback [OF ex_schemasForSubject 1 2 3]
    namespaces_listing_fallback [OF ex_schemasForSubject_none 1 2 4]
  show ?thesis
    by (simp add: ex_schemasForSubject ex_schemasForSubject_none ex_ids 5)
qed

text \<open>
  C2, at a failing input. With no grant on the namespaces resource and no visible
  namespace, one call of \<^verbatim>\<open>schemasForSubject\<close> leaves the shared namespaces schema of the
  base catalog with a collection-level GET it did not have before.
\<close>

theorem schemasForSubject_writes_shared_schema:
  "map CollectionMethods (schemas ex_collection) = [[], []]
   \<and> map CollectionMethods
        (schemas (fst (schemasForSubject EmptyAPISchemas ex_collection ex_no_access))) =
       [[], [''GET'']]"
  by (simp add: ex_schemasForSubject_none) (simp add: ex_collection_def ex_defs)

text \<open>
  C3, at a failing input. With the same base catalog, templates and decision set, the
  first call of \<^verbatim>\<open>schemasForSubject\<close> returns the namespaces schema with the
  collection-level operations GET, and the second call, on the collection as the first
  left it, returns it with GET, GET.
\<close>

theorem schemasForSubject_repeated_call_differs:
  "collectionMethodsOf (snd (schemasForSubject EmptyAPISchemas ex_collection ex_no_access))
       ''namespace'' = Some [''GET'']
   \<and> collectionMethodsOf
        (snd (schemasForSubject EmptyAPISchemas
                (fst (schemasForSubject EmptyAPISchemas ex_collection ex_no_access)) ex_no_access))
       ''namespace'' = Some [''GET'', ''GET'']"
  by (simp add: ex_schemasForSubject_none ex_schemasForSubject_none_again collectionMethodsOf_def
      ex_filter_namespaces_none)

subsection \<open>The cache layer: the primary index and the expiry index\<close>

lemma schemasForSubject_frame:
  "fst (schemasForSubject b c access) = c\<lparr>schemas := schemas (fst (schemasForSubject b c access))\<rparr>"
  by (simp add: schemasForSubject_def split: sum.splits prod.splits)

lemma schemasForSubject_indexes:
  "cache (fst (schemasForSubject b c access)) = cache c"
  "userCache (fst (schemasForSubject b c access)) = userCache c"
  "userTimeoutCache (fst (schemasForSubject b c access)) = userTimeoutCache c"
  "as (fst (schemasForSubject b c access)) = as c"
  by (subst schemasForSubject_frame, simp)+

lemma Schemas_unfold:
  "Schemas ct b clk c user =
     (let access = AccessFor (as c) user;
          c1 = removeOldRecords (atUserGet clk) c access user;
          c2 = afterStalenessCheck clk c user
      in case snd (cache_Get (atGet clk) (ID access) (cache c1)) of
           Some schemas' \<Rightarrow> (c2, Inr schemas')
         | None \<Rightarrow>
             (case snd (schemasForSubject b c2 access) of
                Inl err \<Rightarrow> (fst (schemasForSubject b c2 access), Inl err)
              | Inr schemas' \<Rightarrow>
                  (addToCache ct clk (fst (schemasForSubject b c2 access)) access user schemas',
                   Inr schemas')))"
  by (simp add: Schemas_def afterStalenessCheck_def Let_def
      split: prod.splits option.splits sum.splits)




lemma purgeUserRecords_fields:
  "cache (purgeUserRecords k c) = (cache c)(k := None)"
  "userTimeoutCache (purgeUserRecords k c) = (userTimeoutCache c)(k := None)"
  "userCache (purgeUserRecords k c) = userCache c"
  "as (purgeUserRecords k c) = PurgeUserData k (as c)"
  "schemas (purgeUserRecords k c) = schemas c"
  by (simp_all add: purgeUserRecords_def cache_Remove_def Let_def)

lemma addToCache_fields:
  "cache (addToCache ct clk c access user s) =
     (cache c)(ID access \<mapsto> (s, atAdd clk + sint (cache_ttl ct)))"
  "userTimeoutCache (addToCache ct clk c access user s) =
     (userTimeoutCache c)(ID access \<mapsto>
        \<lparr>Timeout = atNow clk + sint (cache_ttl ct), UserName = GetName user\<rparr>)"
  "userCache (addToCache ct clk c access user s) =
     (userCache c)(GetName user \<mapsto> (ID access, atUserAdd clk + sint (cache_ttl ct)))"
  "as (addToCache ct clk c access user s) = as c"
  "schemas (addToCache ct clk c access user s) = schemas c"
  by (simp_all add: addToCache_def cache_Add_def Let_def)




lemma cache_Get_fst:
  "fst (cache_Get now key m) k =
     (if k = key \<and> (\<exists>x t. m key = Some (x, t) \<and> now > t) then None else m k)"
  by (auto simp: cache_Get_def split: option.splits)


lemma removeOldRecords_unfold:
  "removeOldRecords now c access user =
     (let c0 = c\<lparr>userCache := fst (cache_Get now (GetName user) (userCache c))\<rparr>
      in case snd (cache_Get now (GetName user) (userCache c)) of
           None \<Rightarrow> c0
         | Some d \<Rightarrow>
             if d \<noteq> ID access
             then (purgeUserRecords d c0)\<lparr>userCache := cache_Remove (GetName user) (userCache c0)\<rparr>
             else c0)"
  by (simp add: removeOldRecords_def Let_def purgeUserRecords_fields
      split: prod.splits option.splits)







subsection \<open>The cache layer: staleness and failed computations\<close>

lemma removeOldRecords_stale:
  assumes "snd (cache_Get now (GetName user) (userCache c)) = Some D1" "D1 \<noteq> ID access"
  shows "cache (removeOldRecords now c access user) = (cache c)(D1 := None)"
    and "userTimeoutCache (removeOldRecords now c access user) = (userTimeoutCache c)(D1 := None)"
    and "userCache (removeOldRecords now c access user) (GetName user) = None"
  unfolding removeOldRecords_unfold Let_def using assms
  by (simp_all add: purgeUserRecords_fields cache_Remove_def)

lemma cache_Get_snd_upd:
  "k \<noteq> k' \<Longrightarrow> snd (cache_Get now k (m(k' := v))) = snd (cache_Get now k m)"
  by (simp add: cache_Get_def split: option.splits)

lemma afterStalenessCheck_fields:
  "cache (afterStalenessCheck clk c user) =
     fst (cache_Get (atGet clk) (ID (AccessFor (as c) user))
           (cache (removeOldRecords (atUserGet clk) c (AccessFor (as c) user) user)))"
  "userCache (afterStalenessCheck clk c user) =
     userCache (removeOldRecords (atUserGet clk) c (AccessFor (as c) user) user)"
  "userTimeoutCache (afterStalenessCheck clk c user) =
     userTimeoutCache (removeOldRecords (atUserGet clk) c (AccessFor (as c) user) user)"
  by (simp_all add: afterStalenessCheck_def Let_def)

text \<open>
  C1, as amended. Let the principal index hold a live entry for the principal pointing to
  \<open>D1\<close>, and let the decision identity of the principal now be another one, \<open>D2\<close>. After
  \<^verbatim>\<open>Schemas\<close>, neither the primary index nor the expiry index holds anything under \<open>D1\<close>,
  and the principal index holds for the principal either nothing or one entry pointing
  to \<open>D2\<close>: the entry is written exactly when \<open>D2\<close> had no record (a miss) and the
  computation of the catalog succeeded; on a hit, \<^verbatim>\<open>Schemas\<close> returns the record that is
  there and writes no entry for the principal.
\<close>

theorem one_record_per_principal:
  assumes "snd (cache_Get (atUserGet clk) (GetName user) (userCache c)) = Some D1"
    and "D1 \<noteq> ID (AccessFor (as c) user)"
    and "Schemas ct b clk c user = (c', r)"
  shows "cache c' D1 = None \<and> userTimeoutCache c' D1 = None
       \<and> userCache c' (GetName user) =
           (if \<not> has_record (atGet clk) c (ID (AccessFor (as c) user)) \<and> \<not> isl r
            then Some (ID (AccessFor (as c) user), atUserAdd clk + sint (cache_ttl ct))
            else None)
       \<and> (\<forall>s. snd (cache_Get (atGet clk) (ID (AccessFor (as c) user)) (cache c)) = Some s \<longrightarrow>
             r = Inr s)"
proof -
  let ?a = "AccessFor (as c) user"
  let ?c1 = "removeOldRecords (atUserGet clk) c ?a user"
  let ?c2 = "afterStalenessCheck clk c user"
  let ?c3 = "fst (schemasForSubject b ?c2 ?a)"
  note st = removeOldRecords_stale [OF assms(1,2)]
  have g: "snd (cache_Get (atGet clk) (ID ?a) (cache ?c1)) = snd (cache_Get (atGet clk) (ID ?a) (cache c))"
    unfolding st using assms(2) by (simp add: cache_Get_snd_upd)
  have c2: "cache ?c2 D1 = None" "userTimeoutCache ?c2 D1 = None" "userCache ?c2 (GetName user) = None"
    by (simp_all add: afterStalenessCheck_fields st cache_Get_fst)
  have c3: "cache ?c3 D1 = None" "userTimeoutCache ?c3 D1 = None" "userCache ?c3 (GetName user) = None"
    using c2 by (simp_all add: schemasForSubject_indexes)
  show ?thesis
  proof (cases "snd (cache_Get (atGet clk) (ID ?a) (cache c))")
    case (Some s)
    then have "c' = ?c2" "r = Inr s"
      using assms(3) unfolding Schemas_unfold Let_def g by simp_all
    then show ?thesis using c2 Some by (simp add: has_record_def)
  next
    case None
    show ?thesis
    proof (cases "snd (schemasForSubject b ?c2 ?a)")
      case (Inl err)
      then have "c' = ?c3" "r = Inl err"
        using assms(3) None unfolding Schemas_unfold Let_def g by simp_all
      then show ?thesis using c3 None by simp
    next
      case (Inr s)
      then have "c' = addToCache ct clk ?c3 ?a user s" "r = Inr s"
        using assms(3) None unfolding Schemas_unfold Let_def g by simp_all
      then show ?thesis using c3 None assms(2) by (simp add: addToCache_fields has_record_def)
    qed
  qed
qed

lemma cache_Get_fst_le: "fst (cache_Get now k m) \<subseteq>\<^sub>m m"
  by (auto simp: map_le_def cache_Get_fst dom_def split: if_splits)

lemma upd_None_le: "m(k := None) \<subseteq>\<^sub>m m"
  by (auto simp: map_le_def)

lemma removeOldRecords_le:
  "cache (removeOldRecords now c access user) \<subseteq>\<^sub>m cache c"
  "userCache (removeOldRecords now c access user) \<subseteq>\<^sub>m userCache c"
  "userTimeoutCache (removeOldRecords now c access user) \<subseteq>\<^sub>m userTimeoutCache c"
  unfolding removeOldRecords_unfold Let_def
  by (auto simp: purgeUserRecords_fields cache_Remove_def cache_Get_fst_le upd_None_le
      intro: map_le_trans [OF upd_None_le cache_Get_fst_le] split: option.splits)

lemma afterStalenessCheck_le:
  "cache (afterStalenessCheck clk c user) \<subseteq>\<^sub>m cache c"
  "userCache (afterStalenessCheck clk c user) \<subseteq>\<^sub>m userCache c"
  "userTimeoutCache (afterStalenessCheck clk c user) \<subseteq>\<^sub>m userTimeoutCache c"
  unfolding afterStalenessCheck_fields
  by (auto intro: map_le_trans [OF cache_Get_fst_le] removeOldRecords_le)

lemma afterStalenessCheck_miss:
  "(snd (cache_Get (atGet clk) (ID (AccessFor (as c) user))
           (cache (removeOldRecords (atUserGet clk) c (AccessFor (as c) user) user))) = None)
   = (cache (afterStalenessCheck clk c user) (ID (AccessFor (as c) user)) = None)"
  by (auto simp: afterStalenessCheck_fields cache_Get_def split: option.splits)

text \<open>
  C10, as amended. \<^verbatim>\<open>Schemas\<close> returns an error exactly when the lookup after the staleness
  check misses and \<^verbatim>\<open>schemasForSubject\<close> returns that error. Then nothing is added to any
  index: the three indexes are as the staleness check and the lookup left them, each
  contained in what it was before the call (the purge of the stale record of the
  principal and the drop of expired records are the only changes).
\<close>

theorem failed_computation_not_cached:
  assumes "c2 = afterStalenessCheck clk c user"
    and "access = AccessFor (as c) user"
    and "c' = fst (Schemas ct b clk c user)"
  shows "(snd (Schemas ct b clk c user) = Inl err) =
           (cache c2 (ID access) = None \<and> snd (schemasForSubject b c2 access) = Inl err)
       \<and> (snd (Schemas ct b clk c user) = Inl err \<longrightarrow>
             cache c' = cache c2 \<and> userCache c' = userCache c2
             \<and> userTimeoutCache c' = userTimeoutCache c2
             \<and> cache c' \<subseteq>\<^sub>m cache c \<and> userCache c' \<subseteq>\<^sub>m userCache c
             \<and> userTimeoutCache c' \<subseteq>\<^sub>m userTimeoutCache c)"
proof -
  let ?miss = "snd (cache_Get (atGet clk) (ID access) (cache (removeOldRecords (atUserGet clk) c access user))) = None"
  have m: "?miss = (cache c2 (ID access) = None)"
    unfolding assms(1,2) by (rule afterStalenessCheck_miss)
  have 1: "(snd (Schemas ct b clk c user) = Inl err) =
           (cache c2 (ID access) = None \<and> snd (schemasForSubject b c2 access) = Inl err)"
    unfolding m [symmetric] unfolding Schemas_unfold Let_def assms(1,2)
    by (auto split: option.splits sum.splits)
  have 2: "c' = fst (schemasForSubject b c2 access)" if "snd (Schemas ct b clk c user) = Inl err"
    using that unfolding assms(3) unfolding Schemas_unfold Let_def assms(1,2)
    by (auto split: option.splits sum.splits)
  have 3: "cache c' = cache c2 \<and> userCache c' = userCache c2
             \<and> userTimeoutCache c' = userTimeoutCache c2" if "snd (Schemas ct b clk c user) = Inl err"
    unfolding 2 [OF that] by (simp add: schemasForSubject_indexes)
  have 4: "cache c2 \<subseteq>\<^sub>m cache c \<and> userCache c2 \<subseteq>\<^sub>m userCache c
             \<and> userTimeoutCache c2 \<subseteq>\<^sub>m userTimeoutCache c"
    unfolding assms(1) by (simp add: afterStalenessCheck_le)
  from 1 3 4 show ?thesis by simp
qed

subsection \<open>The cache layer on the concrete states\<close>

lemma ex_clock_fields:
  "atUserGet ex_clock = 0" "atGet ex_clock = 0" "atAdd ex_clock = 0" "atUserAdd ex_clock = 0"
  "atNow ex_clock = 0"
  by (simp_all add: ex_clock_def)

lemmas cache_defs = removeOldRecords_unfold afterStalenessCheck_def purgeUserRecords_def addToCache_def
  cache_Get_def cache_Add_def cache_Remove_def PurgeUserData_def Let_def ex_clock_fields

lemma ex_ttl: "sint (cache_ttl default_CacheTimeout) = 7776000000000000"
  by (simp add: cache_ttl_def default_CacheTimeout_def time_Hour_def)

lemma ex_roles_fields:
  "cache ex_roles_collection = Map.empty" "userCache ex_roles_collection = Map.empty"
  "userTimeoutCache ex_roles_collection = Map.empty" "schemas ex_roles_collection = [ex_clusterroles]"
  "baseSchema ex_roles_collection = EmptyAPISchemas"
  "as ex_roles_collection = \<lparr>AccessFor = ex_user_access, purged = []\<rparr>"
  by (simp_all add: ex_roles_collection_def ex_collection_def)

lemma ex_user_access_simps:
  "ex_user_access ex_bob = ex_no_access" "ex_user_access ex_alice = ex_access"
  "GetName ex_bob = ''bob''" "GetName ex_alice = ''alice''"
  "ID ex_access = ''D1''" "ID ex_no_access = ''D2''" "ID ex_access3 = ''D3''"
  by (simp_all add: ex_user_access_def ex_bob_def ex_alice_def ex_access_def ex_no_access_def ex_access3_def)

lemma ex_sfs_roles_none:
  "schemas c = [ex_clusterroles] \<Longrightarrow> baseSchema c = EmptyAPISchemas \<Longrightarrow>
   schemasForSubject EmptyAPISchemas c ex_no_access =
     (c\<lparr>schemas := [ex_clusterroles]\<rparr>, Inr \<lparr>SchemasByID = [], accessSet = Some ex_no_access\<rparr>)"
  by (simp add: catalog_defs ex_filter_clusterroles_none)

lemma ex_after_bob_fields:
  "cache ex_after_bob = [''D2'' \<mapsto> (\<lparr>SchemasByID = [], accessSet = Some ex_no_access\<rparr>, 7776000000000000)]"
  "userCache ex_after_bob = [''bob'' \<mapsto> (''D2'', 7776000000000000)]"
  "userTimeoutCache ex_after_bob = [''D2'' \<mapsto> \<lparr>Timeout = 7776000000000000, UserName = ''bob''\<rparr>]"
  "schemas ex_after_bob = [ex_clusterroles]"
  "baseSchema ex_after_bob = EmptyAPISchemas"
  "as ex_after_bob = \<lparr>AccessFor = ex_user_access, purged = []\<rparr>"
  unfolding ex_after_bob_def Schemas_unfold
  by (simp_all add: cache_defs ex_roles_fields ex_user_access_simps ex_sfs_roles_none ex_ttl)

lemma ex_filter_access3:
  "filterSchema ex_access3 ex_clusterroles = (ex_clusterroles, Some ex_roles_filtered)"
  by (simp add: ex_roles_filtered_def ex_filter_clusterroles)
     (simp add: ex_defs ex_access3_def filter_defs attrs methods)

lemma ex_sfs_roles:
  "schemas c = [ex_clusterroles] \<Longrightarrow> baseSchema c = EmptyAPISchemas \<Longrightarrow>
   schemasForSubject EmptyAPISchemas c ex_access =
     (c\<lparr>schemas := [ex_clusterroles]\<rparr>,
      Inr \<lparr>SchemasByID = [(''rbac.clusterrole'', ex_roles_filtered)], accessSet = Some ex_access\<rparr>)"
  by (simp add: catalog_defs ex_filter_clusterroles ex_roles_filtered_def ex_ids)

lemma ex_after_alice_fields:
  "cache ex_after_alice =
     [''D2'' \<mapsto> (\<lparr>SchemasByID = [], accessSet = Some ex_no_access\<rparr>, 7776000000000000),
      ''D1'' \<mapsto> (\<lparr>SchemasByID = [(''rbac.clusterrole'', ex_roles_filtered)], accessSet = Some ex_access\<rparr>, 7776000000000000)]"
  "userCache ex_after_alice = [''bob'' \<mapsto> (''D2'', 7776000000000000), ''alice'' \<mapsto> (''D1'', 7776000000000000)]"
  "userTimeoutCache ex_after_alice =
     [''D2'' \<mapsto> \<lparr>Timeout = 7776000000000000, UserName = ''bob''\<rparr>,
      ''D1'' \<mapsto> \<lparr>Timeout = 7776000000000000, UserName = ''alice''\<rparr>]"
  "schemas ex_after_alice = [ex_clusterroles]"
  "baseSchema ex_after_alice = EmptyAPISchemas"
  "as ex_after_alice = \<lparr>AccessFor = ex_user_access, purged = []\<rparr>"
  unfolding ex_after_alice_def Schemas_unfold
  by (simp_all add: cache_defs ex_after_bob_fields ex_user_access_simps ex_sfs_roles ex_ttl)

theorem principal_index_counterexample:
  "snd (cache_Get 0 (GetName ex_alice) (userCache ex_alice_to_D2)) = Some ''D1''
   \<and> ID (AccessFor (as ex_alice_to_D2) ex_alice) = ''D2''
   \<and> snd (cache_Get 0 ''D2'' (cache ex_alice_to_D2)) \<noteq> None
   \<and> userCache (fst (Schemas default_CacheTimeout EmptyAPISchemas ex_clock ex_alice_to_D2 ex_alice))
        (GetName ex_alice) = None"
  unfolding ex_alice_to_D2_def Schemas_unfold
  by (simp add: cache_defs ex_after_alice_fields ex_user_access_simps)

lemma ex_sfs_roles3:
  "schemas c = [ex_clusterroles] \<Longrightarrow> baseSchema c = EmptyAPISchemas \<Longrightarrow>
   schemasForSubject EmptyAPISchemas c ex_access3 =
     (c\<lparr>schemas := [ex_clusterroles]\<rparr>,
      Inr \<lparr>SchemasByID = [(''rbac.clusterrole'', ex_roles_filtered)], accessSet = Some ex_access3\<rparr>)"
  by (simp add: catalog_defs ex_filter_access3 ex_roles_filtered_def ex_filter_clusterroles ex_ids)

lemma ex_sfs_broken:
  "schemas c = [ex_clusterroles] \<Longrightarrow>
   baseSchema c = \<lparr>SchemasByID = [(''rbac.clusterrole'', ex_clusterroles)], accessSet = None\<rparr> \<Longrightarrow>
   schemasForSubject EmptyAPISchemas c ex_access3 =
     (c\<lparr>schemas := [ex_clusterroles]\<rparr>, Inl (DuplicateSchema ''rbac.clusterrole''))"
  by (simp add: catalog_defs ex_filter_access3 ex_roles_filtered_def ex_filter_clusterroles ex_ids)

theorem one_record_per_principal_witness:
  "cache (fst (Schemas default_CacheTimeout EmptyAPISchemas ex_clock ex_alice_to_D3 ex_alice)) ''D1'' = None
   \<and> userTimeoutCache (fst (Schemas default_CacheTimeout EmptyAPISchemas ex_clock ex_alice_to_D3 ex_alice)) ''D1'' = None
   \<and> userCache (fst (Schemas default_CacheTimeout EmptyAPISchemas ex_clock ex_alice_to_D3 ex_alice)) ''alice''
       = Some (''D3'', 7776000000000000)"
proof -
  have 1: "snd (cache_Get (atUserGet ex_clock) (GetName ex_alice) (userCache ex_alice_to_D3)) = Some ''D1''"
    by (simp add: ex_alice_to_D3_def cache_Get_def ex_after_alice_fields ex_user_access_simps
        ex_clock_fields)
  have 2: "''D1'' \<noteq> ID (AccessFor (as ex_alice_to_D3) ex_alice)"
    by (simp add: ex_alice_to_D3_def ex_user_access_simps)
  have 3: "Schemas default_CacheTimeout EmptyAPISchemas ex_clock ex_alice_to_D3 ex_alice =
      (fst (Schemas default_CacheTimeout EmptyAPISchemas ex_clock ex_alice_to_D3 ex_alice),
       snd (Schemas default_CacheTimeout EmptyAPISchemas ex_clock ex_alice_to_D3 ex_alice))"
    by simp
  have 4: "\<not> has_record (atGet ex_clock) ex_alice_to_D3 (ID (AccessFor (as ex_alice_to_D3) ex_alice))"
    by (simp add: has_record_def ex_alice_to_D3_def cache_Get_def ex_after_alice_fields
        ex_user_access_simps ex_clock_fields)
  have 5: "\<not> isl (snd (Schemas default_CacheTimeout EmptyAPISchemas ex_clock ex_alice_to_D3 ex_alice))"
    unfolding ex_alice_to_D3_def Schemas_unfold
    by (simp add: cache_defs ex_after_alice_fields ex_user_access_simps ex_sfs_roles3)
  from one_record_per_principal [OF 1 2 3] 4 5 show ?thesis
    by (simp add: ex_alice_to_D3_def ex_user_access_simps ex_ttl ex_clock_fields)
qed

theorem failed_computation_purges_counterexample:
  "snd (Schemas default_CacheTimeout EmptyAPISchemas ex_clock ex_alice_to_D3_broken ex_alice) =
     Inl (DuplicateSchema ''rbac.clusterrole'')
   \<and> cache ex_alice_to_D3_broken ''D1'' \<noteq> None
   \<and> cache (fst (Schemas default_CacheTimeout EmptyAPISchemas ex_clock ex_alice_to_D3_broken ex_alice)) ''D1''
       = None
   \<and> userCache ex_alice_to_D3_broken ''alice'' \<noteq> None
   \<and> userCache (fst (Schemas default_CacheTimeout EmptyAPISchemas ex_clock ex_alice_to_D3_broken ex_alice)) ''alice''
       = None"
  unfolding ex_alice_to_D3_broken_def ex_alice_to_D3_def Schemas_unfold
  by (simp add: cache_defs ex_after_alice_fields ex_user_access_simps ex_sfs_broken)

theorem failed_computation_not_cached_witness:
  "snd (Schemas default_CacheTimeout EmptyAPISchemas ex_clock ex_alice_to_D3_broken ex_alice) =
     Inl (DuplicateSchema ''rbac.clusterrole'')
   \<and> cache (fst (Schemas default_CacheTimeout EmptyAPISchemas ex_clock ex_alice_to_D3_broken ex_alice))
       \<subseteq>\<^sub>m cache ex_alice_to_D3_broken
   \<and> userCache (fst (Schemas default_CacheTimeout EmptyAPISchemas ex_clock ex_alice_to_D3_broken ex_alice))
       \<subseteq>\<^sub>m userCache ex_alice_to_D3_broken
   \<and> userTimeoutCache (fst (Schemas default_CacheTimeout EmptyAPISchemas ex_clock ex_alice_to_D3_broken ex_alice))
       \<subseteq>\<^sub>m userTimeoutCache ex_alice_to_D3_broken"
proof -
  have e: "snd (Schemas default_CacheTimeout EmptyAPISchemas ex_clock ex_alice_to_D3_broken ex_alice) =
     Inl (DuplicateSchema ''rbac.clusterrole'')"
    unfolding ex_alice_to_D3_broken_def ex_alice_to_D3_def Schemas_unfold
    by (simp add: cache_defs ex_after_alice_fields ex_user_access_simps ex_sfs_broken)
  from failed_computation_not_cached [where ct = default_CacheTimeout and b = EmptyAPISchemas
      and clk = ex_clock and c = ex_alice_to_D3_broken and user = ex_alice
      and err = "DuplicateSchema ''rbac.clusterrole''", OF refl refl refl] e
  show ?thesis by blast
qed





subsection \<open>The template pass\<close>

lemma applyTemplate_None: "applyTemplate c None s = Inr s"
  by (simp add: applyTemplate_def)

lemma same_Formatter: "Formatter s = v \<Longrightarrow> s\<lparr>Formatter := v\<rparr> = s"
  by (cases s) simp

lemma same_Store: "Store s = v \<Longrightarrow> s\<lparr>Store := v\<rparr> = s"
  by (cases s) simp

lemma applyTemplate_Some:
  assumes "defaultStore c = Inr d"
  shows "applyTemplate c (Some t) s =
     Inr (hook_of t (s\<lparr>Formatter := formatter_after (Formatter s) t,
                        Store := store_after (Store s) d t\<rparr>))"
  using assms
  by (cases "Formatter s"; cases "TemplateFormatter t"; cases "Store s"; cases "StoreFactory t";
      cases "Customize t")
     (simp_all add: applyTemplate_def hook_of_def formatter_after_def store_after_def
       supplied_store_def same_Formatter same_Store)

lemma defaultStore_Inr:
  assumes "defaultStore c = Inr d"
  shows "(templates c '''' = [] \<longrightarrow> d = None)
       \<and> (\<forall>t ts. templates c '''' = Some t # ts \<longrightarrow> d = TemplateStore t)"
  using assms by (auto simp: defaultStore_def split: list.splits option.splits)

lemma applyTemplateList_result:
  assumes "defaultStore c = Inr d"
    and "\<forall>t. Some t \<in> set ts \<longrightarrow> keeps_formatter_and_store t"
  shows "\<exists>s'. applyTemplateList c ts s = Inr s'
       \<and> Store s' = (case Store s of None \<Rightarrow> first_store d ts | Some x \<Rightarrow> Some x)
       \<and> Formatter s' = chained_formatter (Formatter s) ts"
  using assms(2)
proof (induction ts arbitrary: s)
  case Nil
  then show ?case by (simp split: option.splits)
next
  case (Cons a ts)
  show ?case
  proof (cases a)
    case None
    from Cons.IH [of s] Cons.prems obtain s' where
      "applyTemplateList c ts s = Inr s'"
      "Store s' = (case Store s of None \<Rightarrow> first_store d ts | Some x \<Rightarrow> Some x)"
      "Formatter s' = chained_formatter (Formatter s) ts"
      by auto
    with None show ?thesis by (simp add: applyTemplate_None split: option.splits)
  next
    case (Some t)
    let ?s1 = "hook_of t (s\<lparr>Formatter := formatter_after (Formatter s) t,
                        Store := store_after (Store s) d t\<rparr>)"
    have k: "keeps_formatter_and_store t" using Cons.prems Some by simp
    have f: "Formatter ?s1 = formatter_after (Formatter s) t"
      and st: "Store ?s1 = store_after (Store s) d t"
      using k by (simp_all add: keeps_formatter_and_store_def)
    from Cons.IH [of ?s1] Cons.prems obtain s' where
      r: "applyTemplateList c ts ?s1 = Inr s'"
         "Store s' = (case Store ?s1 of None \<Rightarrow> first_store d ts | Some x \<Rightarrow> Some x)"
         "Formatter s' = chained_formatter (Formatter ?s1) ts"
      by auto
    have "applyTemplateList c (a # ts) s = Inr s'"
      using Some r(1) by (simp add: applyTemplate_Some [OF assms(1)])
    moreover have "Store s' = (case Store s of None \<Rightarrow> first_store d (a # ts) | Some x \<Rightarrow> Some x)"
    proof -
      have "Store s' = (case store_after (Store s) d t of
                          None \<Rightarrow> first_store d ts | Some x \<Rightarrow> Some x)"
        using r(2) unfolding st .
      then show ?thesis
        unfolding Some
        by (cases "Store s"; cases "supplied_store d t") (simp_all add: store_after_def)
    qed
    moreover have "Formatter s' = chained_formatter (Formatter s) (a # ts)"
      using r(3) unfolding f Some by simp
    ultimately show ?thesis by blast
  qed
qed

lemma applyTemplates_order:
  "applyTemplates c schema =
     applyTemplateList c
       (templates c (SchemaID schema)
        @ templates c (attributes_Group schema @ ''/'' @ attributes_Kind schema)
        @ templates c '''') schema"
  by (simp add: applyTemplates_def templatesFor_def)

lemma applyTemplates_example:
  assumes "defaultStore c = Inr d"
    and "templates c (SchemaID schema) =
           [Some \<lparr>TemplateFormatter = None, TemplateStore = None, StoreFactory = None,
                   Customize = Some h\<rparr>]"
    and "templates c (attributes_Group schema @ ''/'' @ attributes_Kind schema) = []"
    and "templates c '''' =
           [Some \<lparr>TemplateFormatter = Some F, TemplateStore = Some S, StoreFactory = None,
                   Customize = None\<rparr>]"
    and "Formatter schema = None" "Store schema = None"
    and "Formatter (h schema) = None" "Store (h schema) = None"
  shows "applyTemplates c schema = Inr ((h schema)\<lparr>Formatter := Some F, Store := Some S\<rparr>)"
proof -
  have 0: "schema\<lparr>Formatter := None, Store := None\<rparr> = schema"
    using assms(5,6) by (simp add: same_Formatter same_Store)
  show ?thesis
    unfolding applyTemplates_order assms(2,3,4)
    using assms(5-8)
    by (simp add: applyTemplate_Some [OF assms(1)] hook_of_def formatter_after_def
        store_after_def supplied_store_def 0)
qed

text \<open>
  C7, as amended. Provided the read of the default store does not fail (the first wildcard
  template is not a \<^verbatim>\<open>nil\<close> pointer), with \<open>d\<close> the default store, that is the store of the
  first wildcard template if there is one:
  \<^item> the pass visits the exact-identity templates, then the group/kind templates, then
    the wildcard templates;
  \<^item> a \<^verbatim>\<open>nil\<close> template is skipped; for any other template and any schema, the formatter
    becomes the template's when the schema has none and the template's chained before
    the existing one when both are there, the store is written only when the schema has
    none, with the template's store or with what its factory makes of \<open>d\<close>, and then the
    hook of the template is applied, whatever the formatter and the store are;
  \<^item> so when the hooks leave formatter and store as they are, the pass returns a schema
    whose store is the one it had or else that of the first template in the order of the
    visit that supplies one, and whose formatter is the chain of the formatters in that
    order;
  \<^item> and with an exact template carrying only a hook, no group/kind template and a
    wildcard template carrying a formatter and a store, a schema without formatter and
    store, to which the hook gives neither, comes out as the hook made it, with the
    formatter and the store of the wildcard template.
\<close>

theorem template_precedence:
  assumes "defaultStore c = Inr d"
  shows "applyTemplates c schema =
           applyTemplateList c
             (templates c (SchemaID schema)
              @ templates c (attributes_Group schema @ ''/'' @ attributes_Kind schema)
              @ templates c '''') schema
       \<and> (templates c '''' = [] \<longrightarrow> d = None)
       \<and> (\<forall>w ws. templates c '''' = Some w # ws \<longrightarrow> d = TemplateStore w)
       \<and> applyTemplate c None s = Inr s
       \<and> applyTemplate c (Some t) s =
           Inr (hook_of t (s\<lparr>Formatter := formatter_after (Formatter s) t,
                              Store := store_after (Store s) d t\<rparr>))
       \<and> ((\<forall>u. Some u \<in> set ts \<longrightarrow> keeps_formatter_and_store u) \<longrightarrow>
            (\<exists>s'. applyTemplateList c ts s = Inr s'
               \<and> Store s' = (case Store s of None \<Rightarrow> first_store d ts | Some x \<Rightarrow> Some x)
               \<and> Formatter s' = chained_formatter (Formatter s) ts))
       \<and> (templates c (SchemaID schema) =
             [Some \<lparr>TemplateFormatter = None, TemplateStore = None, StoreFactory = None,
                     Customize = Some h\<rparr>]
           \<and> templates c (attributes_Group schema @ ''/'' @ attributes_Kind schema) = []
           \<and> templates c '''' =
               [Some \<lparr>TemplateFormatter = Some F, TemplateStore = Some S, StoreFactory = None,
                       Customize = None\<rparr>]
           \<and> Formatter schema = None \<and> Store schema = None
           \<and> Formatter (h schema) = None \<and> Store (h schema) = None \<longrightarrow>
           applyTemplates c schema = Inr ((h schema)\<lparr>Formatter := Some F, Store := Some S\<rparr>))"
proof -
  note 1 = applyTemplates_order [of c schema]
  note 2 = defaultStore_Inr [OF assms]
  note 3 = applyTemplate_None [of c s]
  note 4 = applyTemplate_Some [OF assms, of t s]
  have 5: "(\<forall>u. Some u \<in> set ts \<longrightarrow> keeps_formatter_and_store u) \<longrightarrow>
            (\<exists>s'. applyTemplateList c ts s = Inr s'
               \<and> Store s' = (case Store s of None \<Rightarrow> first_store d ts | Some x \<Rightarrow> Some x)
               \<and> Formatter s' = chained_formatter (Formatter s) ts)"
    using applyTemplateList_result [OF assms, of ts s] by blast
  have 6: "templates c (SchemaID schema) =
             [Some \<lparr>TemplateFormatter = None, TemplateStore = None, StoreFactory = None,
                     Customize = Some h\<rparr>]
           \<and> templates c (attributes_Group schema @ ''/'' @ attributes_Kind schema) = []
           \<and> templates c '''' =
               [Some \<lparr>TemplateFormatter = Some F, TemplateStore = Some S, StoreFactory = None,
                       Customize = None\<rparr>]
           \<and> Formatter schema = None \<and> Store schema = None
           \<and> Formatter (h schema) = None \<and> Store (h schema) = None \<longrightarrow>
           applyTemplates c schema = Inr ((h schema)\<lparr>Formatter := Some F, Store := Some S\<rparr>)"
    using applyTemplates_example [OF assms, of schema h F S] by blast
  from 1 2 3 4 5 6 show ?thesis by blast
qed

lemma ex_defaultStore:
  "defaultStore ex_templates_collection = Inr (Some (StoreHandle ''wildcard''))"
  "defaultStore ex_templates_kind_collection = Inr (Some (StoreHandle ''wildcard''))"
  by (simp_all add: defaultStore_def ex_templates_collection_def ex_templates_kind_collection_def
      ex_templates_def ex_templates_kind_def ex_wildcard_template_def)

theorem template_precedence_witness:
  "applyTemplates ex_templates_collection ex_clusterroles =
     Inr ((ex_hook ex_clusterroles)
            \<lparr>Formatter := Some (FormatterHandle ''wildcard''),
             Store := Some (StoreHandle ''wildcard'')\<rparr>)
   \<and> (\<exists>s'. applyTemplates ex_templates_kind_collection ex_clusterroles = Inr s'
         \<and> Store s' = Some (StoreHandle ''over-wildcard'')
         \<and> Formatter s' =
             Some (FormatterChain (FormatterHandle ''wildcard'') (FormatterHandle ''kind'')))"
proof -
  let ?ts = "[Some ex_exact_template, None, Some ex_kind_template, Some ex_wildcard_template]"
  have k: "\<forall>u. Some u \<in> set ?ts \<longrightarrow> keeps_formatter_and_store u"
    by (auto simp: keeps_formatter_and_store_def hook_of_def ex_exact_template_def
        ex_kind_template_def ex_wildcard_template_def ex_hook_def)
  have e: "templates ex_templates_collection (SchemaID ex_clusterroles) =
             [Some \<lparr>TemplateFormatter = None, TemplateStore = None, StoreFactory = None,
                     Customize = Some ex_hook\<rparr>]
           \<and> templates ex_templates_collection
               (attributes_Group ex_clusterroles @ ''/'' @ attributes_Kind ex_clusterroles) = []
           \<and> templates ex_templates_collection '''' =
               [Some \<lparr>TemplateFormatter = Some (FormatterHandle ''wildcard''),
                       TemplateStore = Some (StoreHandle ''wildcard''), StoreFactory = None,
                       Customize = None\<rparr>]
           \<and> Formatter ex_clusterroles = None \<and> Store ex_clusterroles = None
           \<and> Formatter (ex_hook ex_clusterroles) = None \<and> Store (ex_hook ex_clusterroles) = None"
    by (simp add: ex_templates_collection_def ex_templates_def ex_clusterroles_def attrs
        ex_exact_template_def ex_wildcard_template_def ex_hook_def)
  have o: "templates ex_templates_kind_collection (SchemaID ex_clusterroles)
        @ templates ex_templates_kind_collection
            (attributes_Group ex_clusterroles @ ''/'' @ attributes_Kind ex_clusterroles)
        @ templates ex_templates_kind_collection '''' = ?ts"
    by (simp add: ex_templates_kind_collection_def ex_templates_kind_def ex_clusterroles_def attrs)
  have f: "first_store (Some (StoreHandle ''wildcard'')) ?ts = Some (StoreHandle ''over-wildcard'')"
    by (simp add: supplied_store_def ex_exact_template_def ex_kind_template_def ex_factory_def
        ex_wildcard_template_def)
  have g: "chained_formatter None ?ts =
      Some (FormatterChain (FormatterHandle ''wildcard'') (FormatterHandle ''kind''))"
    by (simp add: formatter_after_def ex_exact_template_def ex_kind_template_def
        ex_wildcard_template_def)
  have n: "Formatter ex_clusterroles = None" "Store ex_clusterroles = None"
    by (simp_all add: ex_clusterroles_def)
  from template_precedence [where schema = ex_clusterroles and h = ex_hook
      and F = "FormatterHandle ''wildcard''" and S = "StoreHandle ''wildcard''",
      OF ex_defaultStore(1)] e
  have A: "applyTemplates ex_templates_collection ex_clusterroles =
     Inr ((ex_hook ex_clusterroles)
            \<lparr>Formatter := Some (FormatterHandle ''wildcard''),
             Store := Some (StoreHandle ''wildcard'')\<rparr>)"
    by blast
  from template_precedence [where schema = ex_clusterroles and ts = ?ts and s = ex_clusterroles,
      OF ex_defaultStore(2)] k
  have B: "\<exists>s'. applyTemplateList ex_templates_kind_collection ?ts ex_clusterroles = Inr s'
         \<and> Store s' = (case Store ex_clusterroles of None \<Rightarrow>
               first_store (Some (StoreHandle ''wildcard'')) ?ts | Some x \<Rightarrow> Some x)
         \<and> Formatter s' = chained_formatter (Formatter ex_clusterroles) ?ts"
    and C: "applyTemplates ex_templates_kind_collection ex_clusterroles =
           applyTemplateList ex_templates_kind_collection
             (templates ex_templates_kind_collection (SchemaID ex_clusterroles)
              @ templates ex_templates_kind_collection
                  (attributes_Group ex_clusterroles @ ''/'' @ attributes_Kind ex_clusterroles)
              @ templates ex_templates_kind_collection '''') ex_clusterroles"
    by blast+
  from B C show ?thesis unfolding o n using A f g by simp
qed

text \<open>
  An exact template carrying only a hook, where the hook gives the schema a store, and a
  wildcard template carrying a formatter and a store: the schema comes out with the store
  of the hook, not with that of the wildcard template.
\<close>

theorem hook_store_wins_counterexample:
  "applyTemplates ex_store_hook_collection ex_clusterroles =
     Inr (ex_clusterroles\<lparr>Formatter := Some (FormatterHandle ''wildcard''),
                          Store := Some (StoreHandle ''hook'')\<rparr>)
   \<and> TemplateStore ex_wildcard_template = Some (StoreHandle ''wildcard'')
   \<and> StoreHandle ''hook'' \<noteq> StoreHandle ''wildcard''"
  by (simp add: applyTemplates_def templatesFor_def ex_store_hook_collection_def
      ex_store_hook_templates_def ex_clusterroles_def attrs applyTemplate_def
      ex_wildcard_template_def ex_store_hook_def)

end
